theory Spec2Isabelle
  imports Main "HOL-Library.Sublist" "HOL-Library.AList"
begin

section \<open>Strings and regular expressions of the scripts\<close>

text \<open>
  Both scripts (\<^verbatim>\<open>scripts/build.js\<close> and the release script) work on JavaScript
  strings with \<^verbatim>\<open>String.prototype.replace\<close>, \<^verbatim>\<open>match\<close> and \<^verbatim>\<open>exec\<close>. A JavaScript string
  is a sequence of 16-bit code units. The model has the strings whose code units are all
  below 256: a character of the model is the code unit of the same number (ASCII and the
  rest of Latin-1). The character classes below are the JavaScript classes on these code
  units: of the white space and line terminators that \<^verbatim>\<open>\s\<close> matches, the six ASCII
  ones and the no-break space U+00A0 are below 256; of the line terminators that \<^verbatim>\<open>.\<close>
  excludes and \<^verbatim>\<open>$\<close> looks for, line feed and carriage return.

  The regular expressions of the source are sequences of literals, repeated character
  classes (greedy or lazy, with capture groups around one repetition), an optional
  literal, the end anchor with and without the \<^verbatim>\<open>m\<close> flag and a back reference. They
  are written in that form, and matched with JavaScript's backtracking order: a greedy
  repetition tries the longest run first, a lazy one the shortest.
\<close>

type_synonym cls = "char \<Rightarrow> bool"

definition ws :: cls where
  "ws c = (c \<in> set [CHR '' '', CHR 0x09, CHR ''\<newline>'', CHR 0x0B, CHR 0x0C, CHR 0x0D, CHR 0xA0])"

definition line_terminator :: cls where
  "line_terminator c = (c = CHR ''\<newline>'' \<or> c = CHR 0x0D)"

definition dot :: cls where
  "dot c = (\<not> line_terminator c)"

definition anyc :: cls where
  "anyc c = True"

definition nonc :: "char \<Rightarrow> cls" where
  "nonc x c = (c \<noteq> x)"

definition isc :: "char \<Rightarrow> cls" where
  "isc x c = (c = x)"

definition quote :: cls where
  "quote c = (c = CHR 0x22 \<or> c = CHR 0x27)"

text \<open>
  \<open>Rep greedy lo hi p cap\<close> is the class \<open>p\<close> repeated at least \<open>lo\<close> and at most \<open>hi\<close>
  times (\<open>None\<close>: unbounded), inside a capture group when \<open>cap\<close> holds. \<open>OptLit l\<close> is
  \<^verbatim>\<open>(?:l)?\<close>. \<open>Eol\<close> is \<^verbatim>\<open>$\<close> under the \<^verbatim>\<open>m\<close> flag, \<open>Eos\<close> is \<^verbatim>\<open>$\<close> without it.
\<close>

datatype atom =
    Lit string
  | Rep bool nat "nat option" cls bool
  | OptLit string
  | Eol
  | Eos
  | Backref nat

fun first_some :: "('a \<Rightarrow> 'b option) \<Rightarrow> 'a list \<Rightarrow> 'b option" where
  "first_some f [] = None"
| "first_some f (x # xs) = (case f x of Some r \<Rightarrow> Some r | None \<Rightarrow> first_some f xs)"

definition counts :: "bool \<Rightarrow> nat \<Rightarrow> nat option \<Rightarrow> cls \<Rightarrow> string \<Rightarrow> nat list" where
  "counts greedy lo hi p s =
     (let avail = length (takeWhile p s);
          top = (case hi of None \<Rightarrow> avail | Some h \<Rightarrow> min h avail);
          ns = [lo ..< Suc top]
      in if greedy then rev ns else ns)"

text \<open>
  \<open>rmatch rx caps s\<close> matches \<open>rx\<close> at the start of \<open>s\<close>: the captures (in group order) and
  the text after the match, or \<open>None\<close>.
\<close>

fun rmatch :: "atom list \<Rightarrow> string list \<Rightarrow> string \<Rightarrow> (string list \<times> string) option" where
  "rmatch [] caps s = Some (caps, s)"
| "rmatch (Lit l # rs) caps s =
     (if prefix l s then rmatch rs caps (drop (length l) s) else None)"
| "rmatch (Rep greedy lo hi p cap # rs) caps s =
     first_some (\<lambda>n. rmatch rs (if cap then caps @ [take n s] else caps) (drop n s))
       (counts greedy lo hi p s)"
| "rmatch (OptLit l # rs) caps s =
     (case (if prefix l s then rmatch rs caps (drop (length l) s) else None) of
        Some r \<Rightarrow> Some r
      | None \<Rightarrow> rmatch rs caps s)"
| "rmatch (Eol # rs) caps s =
     (case s of [] \<Rightarrow> rmatch rs caps s
      | c # cs \<Rightarrow> if line_terminator c then rmatch rs caps s else None)"
| "rmatch (Eos # rs) caps s = (if s = [] then rmatch rs caps s else None)"
| "rmatch (Backref k # rs) caps s =
     (let l = (if 0 < k \<and> k \<le> length caps then caps ! (k - 1) else [])
      in if prefix l s then rmatch rs caps (drop (length l) s) else None)"

text \<open>
  \<open>rsearch\<close> is \<^verbatim>\<open>exec\<close>/\<^verbatim>\<open>match\<close> without the \<^verbatim>\<open>g\<close> flag: the leftmost match, as the text
  before it, the captures and the text after it.
\<close>

fun rsearch :: "atom list \<Rightarrow> string \<Rightarrow> (string \<times> string list \<times> string) option" where
  "rsearch rx [] =
     (case rmatch rx [] [] of Some (caps, rest) \<Rightarrow> Some ([], caps, rest) | None \<Rightarrow> None)"
| "rsearch rx (c # cs) =
     (case rmatch rx [] (c # cs) of
        Some (caps, rest) \<Rightarrow> Some ([], caps, rest)
      | None \<Rightarrow>
          (case rsearch rx cs of
             Some (pre, caps, rest) \<Rightarrow> Some (c # pre, caps, rest)
           | None \<Rightarrow> None))"

text \<open>\<^verbatim>\<open>s.replace(rx, f)\<close> without the \<^verbatim>\<open>g\<close> flag: the leftmost match is replaced.\<close>

definition replace_first :: "atom list \<Rightarrow> (string list \<Rightarrow> string) \<Rightarrow> string \<Rightarrow> string" where
  "replace_first rx f s =
     (case rsearch rx s of None \<Rightarrow> s | Some (pre, caps, rest) \<Rightarrow> pre @ f caps @ rest)"

text \<open>
  \<^verbatim>\<open>s.replace(rx, f)\<close> with the \<^verbatim>\<open>g\<close> flag: every match from left to right, each search
  starting where the last match ended (one character further after an empty match).
  \<open>replace_from rx f k s\<close> has \<open>k\<close> characters of the last match still to skip.
\<close>

fun replace_from :: "atom list \<Rightarrow> (string list \<Rightarrow> string) \<Rightarrow> nat \<Rightarrow> string \<Rightarrow> string" where
  "replace_from rx f k [] =
     (if k = 0 then (case rmatch rx [] [] of Some (caps, rest) \<Rightarrow> f caps | None \<Rightarrow> [])
      else [])"
| "replace_from rx f (Suc k) (c # cs) = replace_from rx f k cs"
| "replace_from rx f 0 (c # cs) =
     (case rmatch rx [] (c # cs) of
        None \<Rightarrow> c # replace_from rx f 0 cs
      | Some (caps, rest) \<Rightarrow>
          (let used = length (c # cs) - length rest
           in f caps @ (if used = 0 then c # replace_from rx f 0 cs
                        else replace_from rx f (used - 1) cs)))"

definition replace_all :: "atom list \<Rightarrow> (string list \<Rightarrow> string) \<Rightarrow> string \<Rightarrow> string" where
  "replace_all rx f s = replace_from rx f 0 s"

text \<open>A replacement string with group references: \<^verbatim>\<open>$1\<close> is \<open>G 1\<close>.\<close>

datatype tpl = T string | G nat

fun subst :: "tpl list \<Rightarrow> string list \<Rightarrow> string" where
  "subst [] caps = []"
| "subst (T t # ts) caps = t @ subst ts caps"
| "subst (G k # ts) caps =
     (if 0 < k \<and> k \<le> length caps then caps ! (k - 1) else []) @ subst ts caps"

text \<open>\<^verbatim>\<open>xs.join(sep)\<close>, \<^verbatim>\<open>s.split(',')\<close> and \<^verbatim>\<open>s.trim()\<close>.\<close>

fun join :: "string \<Rightarrow> string list \<Rightarrow> string" where
  "join sep [] = []"
| "join sep [x] = x"
| "join sep (x # y # ys) = x @ sep @ join sep (y # ys)"

fun split_on :: "char \<Rightarrow> string \<Rightarrow> string \<Rightarrow> string list" where
  "split_on d cur [] = [cur]"
| "split_on d cur (c # cs) =
     (if c = d then cur # split_on d [] cs else split_on d (cur @ [c]) cs)"

definition trim :: "string \<Rightarrow> string" where
  "trim s = rev (dropWhile ws (rev (dropWhile ws s)))"

section \<open>The build script (scripts/build.js)\<close>

datatype js_error = Error string | TypeError string | SystemError string

datatype format = Esm | Cjs

fun format_name :: "format \<Rightarrow> string" where
  "format_name Esm = ''esm''"
| "format_name Cjs = ''cjs''"

text \<open>
  What the script reads from outside: the listing of \<^verbatim>\<open>./assets\<close>, the files' contents,
  the three compilers (each may throw) and, for every file that \<^verbatim>\<open>ensureWrite\<close> is called
  with, whether its \<^verbatim>\<open>fs.mkdir\<close> (of the file's directory) and its \<^verbatim>\<open>fs.writeFile\<close> fail.
\<close>

record build_env =
  assets_dir :: "js_error + string list"
  asset_file :: "string \<Rightarrow> js_error + string"
  svgr :: "string \<Rightarrow> string \<Rightarrow> js_error + string"
  swc :: "string \<Rightarrow> format \<Rightarrow> js_error + string"
  vue_compiler :: "string \<Rightarrow> js_error + string"
  mkdir_error :: "string \<Rightarrow> js_error option"
  write_error :: "string \<Rightarrow> js_error option"

record icon =
  svg :: string
  componentName :: string

subsection \<open>getIcons\<close>

text \<open>
  Modelled from the spec: the \<^verbatim>\<open>camelcase\<close> package, called with \<^verbatim>\<open>pascalCase: true\<close>, is
  not among the sources. The spec's words: convert to PascalCase; words are split on
  non-alphanumeric separators, each word's first letter is capitalized, separators
  removed.
\<close>

definition alnum :: cls where
  "alnum c = (let n = (of_char c :: nat) in
     (48 \<le> n \<and> n \<le> 57) \<or> (65 \<le> n \<and> n \<le> 90) \<or> (97 \<le> n \<and> n \<le> 122))"

definition upper :: "char \<Rightarrow> char" where
  "upper c = (let n = (of_char c :: nat) in if 97 \<le> n \<and> n \<le> 122 then char_of (n - 32) else c)"

fun split_words :: "string \<Rightarrow> string \<Rightarrow> string list" where
  "split_words cur [] = (if cur = [] then [] else [cur])"
| "split_words cur (c # cs) =
     (if alnum c then split_words (cur @ [c]) cs
      else (if cur = [] then [] else [cur]) @ split_words [] cs)"

definition capitalize :: "string \<Rightarrow> string" where
  "capitalize w = (case w of [] \<Rightarrow> [] | c # cs \<Rightarrow> upper c # cs)"

definition camelcase_pascal :: "string \<Rightarrow> string" where
  "camelcase_pascal s = concat (map capitalize (split_words [] s))"

text \<open>\<^verbatim>\<open>/\.svg$/\<close>\<close>

definition rx_svg_ext :: "atom list" where
  "rx_svg_ext = [Lit ''.svg'', Eos]"

definition component_name_of :: "string \<Rightarrow> string" where
  "component_name_of file = camelcase_pascal (replace_first rx_svg_ext (\<lambda>_. []) file)"

text \<open>
  The derivation in the spec's words, to compare with: strip the file extension (the last
  dot and what follows it), then convert to PascalCase.
\<close>

definition strip_extension :: "string \<Rightarrow> string" where
  "strip_extension file =
     (if CHR ''.'' \<in> set file then rev (tl (dropWhile (\<lambda>c. c \<noteq> CHR ''.'') (rev file))) else file)"

definition spec_component_name :: "string \<Rightarrow> string" where
  "spec_component_name file = camelcase_pascal (strip_extension file)"

text \<open>
  \<^verbatim>\<open>Promise.all\<close> over tasks that were all started: the results when every task
  succeeds, else a rejection. The model rejects with the first failing task in list
  order (in the program: the one that fails first in time).
\<close>

fun all_ok :: "(js_error + 'a) list \<Rightarrow> js_error + 'a list" where
  "all_ok [] = Inr []"
| "all_ok (Inl e # xs) = Inl e"
| "all_ok (Inr x # xs) = (case all_ok xs of Inl e \<Rightarrow> Inl e | Inr ys \<Rightarrow> Inr (x # ys))"

definition getIcons :: "build_env \<Rightarrow> js_error + icon list" where
  "getIcons env =
     (case assets_dir env of
        Inl e \<Rightarrow> Inl e
      | Inr files \<Rightarrow>
          all_ok (map (\<lambda>file.
            case asset_file env (''././assets/'' @ file) of
              Inl e \<Rightarrow> Inl e
            | Inr text \<Rightarrow> Inr \<lparr>svg = text, componentName = component_name_of file\<rparr>) files))"

subsection \<open>transforms\<close>

text \<open>
  \<^verbatim>\<open>/Object\.defineProperty\(exports,\s*["']default["'],\s*\{[\s\S]*?\}\);?\s*/g\<close> and
  \<^verbatim>\<open>/const\s+_default\s*=\s*([^;]+);?\s*$/m\<close>
\<close>

definition rx_define_default :: "atom list" where
  "rx_define_default =
     [Lit ''Object.defineProperty(exports,'', Rep True 0 None ws False,
      Rep True 1 (Some 1) quote False, Lit ''default'', Rep True 1 (Some 1) quote False,
      Lit '','', Rep True 0 None ws False, Lit ''{'', Rep False 0 None anyc False,
      Lit ''})'', Rep True 0 (Some 1) (isc CHR '';'') False, Rep True 0 None ws False]"

definition rx_const_default :: "atom list" where
  "rx_const_default =
     [Lit ''const'', Rep True 1 None ws False, Lit ''_default'', Rep True 0 None ws False,
      Lit ''='', Rep True 0 None ws False, Rep True 1 None (nonc CHR '';'') True,
      Rep True 0 (Some 1) (isc CHR '';'') False, Rep True 0 None ws False, Eol]"

definition react_cjs_rewrite :: "string \<Rightarrow> string" where
  "react_cjs_rewrite code =
     replace_first rx_const_default (subst [T ''module.exports = '', G 1, T '';''])
       (replace_all rx_define_default (\<lambda>_. []) code)"








definition transforms_react :: "build_env \<Rightarrow> string \<Rightarrow> string \<Rightarrow> format \<Rightarrow> js_error + string" where
  "transforms_react env svg_text name fmt =
     (case svgr env svg_text name of
        Inl e \<Rightarrow> Inl e
      | Inr component \<Rightarrow>
          (case swc env component fmt of
             Inl e \<Rightarrow> Inl e
           | Inr code \<Rightarrow> Inr (if fmt = Cjs then react_cjs_rewrite code else code)))"

text \<open>
  \<^verbatim>\<open>/<svg([^>]*)\s+width="[^"]*"([^>]*)>/g\<close> and the same for \<^verbatim>\<open>height\<close>; the pattern
  for an attribute name \<open>a\<close>:
\<close>

definition rx_attr :: "string \<Rightarrow> atom list" where
  "rx_attr a =
     [Lit ''<svg'', Rep True 0 None (nonc CHR ''>'') True, Rep True 1 None ws False,
      Lit (a @ [CHR ''='', CHR 0x22]), Rep True 0 None (nonc CHR 0x22) False, Lit [CHR 0x22],
      Rep True 0 None (nonc CHR ''>'') True, Lit ''>'']"

definition tpl_attr :: "string \<Rightarrow> tpl list" where
  \<open>tpl_attr a = [T ''<svg'', G 1, T ('' '' @ a @ ''="1em"''), G 2, T ''>'']\<close>

definition vue_pre :: "string \<Rightarrow> string" where
  "vue_pre svg_text =
     replace_all (rx_attr ''height'') (subst (tpl_attr ''height''))
       (replace_all (rx_attr ''width'') (subst (tpl_attr ''width'')) svg_text)"







text \<open>
  \<^verbatim>\<open>/import\s+\{\s*([^}]+)\s*\}\s+from\s+(['"])(.*?)\2/\<close> with its replacement function,
  and \<^verbatim>\<open>/\s+as\s+/\<close>.
\<close>

definition rx_import :: "atom list" where
  "rx_import =
     [Lit ''import'', Rep True 1 None ws False, Lit ''{'', Rep True 0 None ws False,
      Rep True 1 None (nonc CHR ''}'') True, Rep True 0 None ws False, Lit ''}'',
      Rep True 1 None ws False, Lit ''from'', Rep True 1 None ws False,
      Rep True 1 (Some 1) quote True, Rep False 0 None dot True, Backref 2]"

definition rx_as :: "atom list" where
  "rx_as = [Rep True 1 None ws False, Lit ''as'', Rep True 1 None ws False]"

definition require_of_import :: "string list \<Rightarrow> string" where
  \<open>require_of_import caps =
     (let imports = caps ! 0; source = caps ! 2;
          newImports = join '', ''
            (map (\<lambda>i. replace_first rx_as (\<lambda>_. '': '') (trim i)) (split_on CHR '','' [] imports))
      in ''const { '' @ newImports @ '' } = require("'' @ source @ ''")'')\<close>

definition transforms_vue :: "build_env \<Rightarrow> string \<Rightarrow> format \<Rightarrow> js_error + string" where
  "transforms_vue env svg_text fmt =
     (case vue_compiler env (vue_pre svg_text) of
        Inl e \<Rightarrow> Inl e
      | Inr code \<Rightarrow>
          Inr (if fmt = Cjs
               then replace_first [Lit ''export function render'']
                      (\<lambda>_. ''module.exports = function render'')
                      (replace_first rx_import require_of_import code)
               else replace_first [Lit ''export function'']
                      (\<lambda>_. ''export default function'') code))"

text \<open>
  The values that \<^verbatim>\<open>transforms[target](...)\<close> can give: a string, or one of the values that
  are no string.
\<close>

datatype js_value = Str string | Bool bool | Undefined | Object

text \<open>
  \<^verbatim>\<open>transforms[target]({ svg, componentName, format })\<close>. The object has the two own keys
  \<^verbatim>\<open>react\<close> and \<^verbatim>\<open>vue\<close>, and it inherits the members of \<^verbatim>\<open>Object.prototype\<close>, which the
  lookup finds too: \<^verbatim>\<open>toString\<close> and \<^verbatim>\<open>toLocaleString\<close> return \<^verbatim>\<open>[object Object]\<close>;
  \<^verbatim>\<open>valueOf\<close> and \<^verbatim>\<open>constructor\<close> return an object; \<^verbatim>\<open>hasOwnProperty\<close>, \<^verbatim>\<open>isPrototypeOf\<close> and
  \<^verbatim>\<open>propertyIsEnumerable\<close> return \<^verbatim>\<open>false\<close>; \<^verbatim>\<open>__lookupGetter__\<close> and \<^verbatim>\<open>__lookupSetter__\<close>
  return \<^verbatim>\<open>undefined\<close>; \<^verbatim>\<open>__defineGetter__\<close> and \<^verbatim>\<open>__defineSetter__\<close> throw, for want of a
  function as their second argument. Under any other key (\<^verbatim>\<open>__proto__\<close>, whose value is an
  object, among them) there is no function to call.
\<close>

definition transforms :: "build_env \<Rightarrow> string \<Rightarrow> string \<Rightarrow> string \<Rightarrow> format \<Rightarrow> js_error + js_value" where
  "transforms env target svg_text name fmt =
     (if target = ''react'' then map_sum id Str (transforms_react env svg_text name fmt)
      else if target = ''vue'' then map_sum id Str (transforms_vue env svg_text fmt)
      else if target \<in> set [''toString'', ''toLocaleString''] then Inr (Str ''[object Object]'')
      else if target \<in> set [''valueOf'', ''constructor''] then Inr Object
      else if target \<in> set [''hasOwnProperty'', ''isPrototypeOf'', ''propertyIsEnumerable'']
      then Inr (Bool False)
      else if target \<in> set [''__lookupGetter__'', ''__lookupSetter__''] then Inr Undefined
      else if target \<in> set [''__defineGetter__'', ''__defineSetter__'']
      then Inl (TypeError (''Object.prototype.'' @ target @ '': Expecting function''))
      else Inl (TypeError ''transforms[target] is not a function''))"

subsection \<open>build, exportAll, main\<close>

text \<open>
  A call of \<^verbatim>\<open>ensureWrite\<close>. \<open>w_awaited\<close> tells whether somebody awaits the promise: the
  callback of \<^verbatim>\<open>icons.flatMap\<close> is an async function, so \<^verbatim>\<open>flatMap\<close> gets promises (not
  arrays) and flattens nothing; \<^verbatim>\<open>Promise.all\<close> awaits the callbacks, each resolving to an
  array of two \<^verbatim>\<open>ensureWrite\<close> promises that nothing awaits.
\<close>

record write_op =
  w_path :: string
  w_data :: js_value
  w_awaited :: bool

text \<open>
  The rejection of a call of \<^verbatim>\<open>ensureWrite\<close>, if any: of its \<^verbatim>\<open>fs.mkdir\<close>, else of its
  \<^verbatim>\<open>fs.writeFile\<close>, which refuses data that is no string before it writes.
\<close>

definition invalid_data :: "js_value \<Rightarrow> js_error" where
  \<open>invalid_data v = TypeError
     (''The "data" argument must be of type string or an instance of Buffer, TypedArray, or DataView. Received '' @
      (case v of Str s \<Rightarrow> ''type string''
       | Bool b \<Rightarrow> ''type boolean ('' @ (if b then ''true'' else ''false'') @ '')''
       | Undefined \<Rightarrow> ''undefined''
       | Object \<Rightarrow> ''an instance of Object''))\<close>

definition ensureWrite :: "build_env \<Rightarrow> write_op \<Rightarrow> js_error option" where
  "ensureWrite env w =
     (case mkdir_error env (w_path w) of
        Some e \<Rightarrow> Some e
      | None \<Rightarrow> (case w_data w of Str text \<Rightarrow> write_error env (w_path w)
                 | v \<Rightarrow> Some (invalid_data v)))"

definition react_types :: "string \<Rightarrow> string list" where
  \<open>react_types name =
     [''import * as React from 'react';'',
      ''declare const '' @ name @
        '': React.ForwardRefExoticComponent<React.PropsWithoutRef<React.SVGProps<SVGSVGElement>> & { title?: string, titleId?: string } & React.RefAttributes<SVGSVGElement>>;'',
      ''export default '' @ name @ '';'']\<close>

definition vue_types :: "string \<Rightarrow> string list" where
  \<open>vue_types name =
     [''import type { FunctionalComponent, HTMLAttributes, VNodeProps } from 'vue';'',
      ''declare const '' @ name @ '': FunctionalComponent<HTMLAttributes & VNodeProps>;'',
      ''export default '' @ name @ '';'']\<close>

definition icon_task :: "build_env \<Rightarrow> string \<Rightarrow> format \<Rightarrow> string \<Rightarrow> icon \<Rightarrow> js_error + write_op list" where
  "icon_task env target fmt output i =
     (case transforms env target (svg i) (componentName i) fmt of
        Inl e \<Rightarrow> Inl e
      | Inr content \<Rightarrow>
          (let types = (if target = ''react'' then react_types (componentName i)
                        else if target = ''vue'' then vue_types (componentName i) else [])
           in Inr [\<lparr>w_path = output @ ''/'' @ componentName i @ ''.js'', w_data = content,
                     w_awaited = False\<rparr>,
                   \<lparr>w_path = output @ ''/'' @ componentName i @ ''.d.ts'',
                     w_data = Str (join [CHR ''\<newline>''] types @ [CHR ''\<newline>'']),
                     w_awaited = False\<rparr>]))"

definition exportAll :: "icon list \<Rightarrow> format \<Rightarrow> string" where
  "exportAll icons fmt =
     join [CHR ''\<newline>'']
       (map (\<lambda>i. if fmt = Esm
                  then ''export { default as '' @ componentName i @ '' } from '' @
                       [CHR 0x27] @ ''./'' @ componentName i @ [CHR 0x27]
                  else ''module.exports.'' @ componentName i @ '' = require('' @
                       [CHR 0x27] @ ''./'' @ componentName i @ [CHR 0x27] @ '')'') icons)"

text \<open>
  What a process does while several promises are in flight depends on the order in which
  they settle. The model follows one order: the directory listing, the files and the
  compilers settle before any write does, and the writes settle in the order in which
  they are started. A rejected promise that nothing awaits is an unhandled rejection:
  Node (every version that has \<^verbatim>\<open>util.parseArgs\<close>) then prints the error and ends the
  process with code 1. So an unawaited write that fails, started before the index files
  of its build, ends the process before they are written.
\<close>

definition unhandled_rejections :: "build_env \<Rightarrow> write_op list \<Rightarrow> js_error list" where
  "unhandled_rejections env ops =
     concat (map (\<lambda>w. case ensureWrite env w of
                         Some e \<Rightarrow> (if w_awaited w then [] else [e])
                       | None \<Rightarrow> []) ops)"

text \<open>
  The outcome of one \<^verbatim>\<open>build(target, format)\<close>, run alone: the rejection of its promise,
  if any, the \<^verbatim>\<open>ensureWrite\<close> calls it made, in order, and the rejections of its unawaited
  writes (\<open>lost\<close>); with one of these the build does not get to its index files.
\<close>

record build_result =
  rejected :: "js_error option"
  writes :: "write_op list"
  lost :: "js_error list"

definition output_dir :: "string \<Rightarrow> format \<Rightarrow> string" where
  "output_dir target fmt = ''./packages/'' @ target @ ''/'' @ format_name fmt"

definition build :: "build_env \<Rightarrow> string \<Rightarrow> format \<Rightarrow> build_result" where
  "build env target fmt =
     (let output = output_dir target fmt in
      case getIcons env of
        Inl e \<Rightarrow> \<lparr>rejected = Some e, writes = [], lost = []\<rparr>
      | Inr icons \<Rightarrow>
          (let tasks = map (icon_task env target fmt output) icons;
               started = concat (map (case_sum (\<lambda>e. []) id) tasks);
               unawaited = unhandled_rejections env started
           in case all_ok tasks of
                Inl e \<Rightarrow> \<lparr>rejected = Some e, writes = started, lost = unawaited\<rparr>
              | Inr res \<Rightarrow>
                  if unawaited \<noteq> []
                  then \<lparr>rejected = None, writes = started, lost = unawaited\<rparr>
                  else
                  (let index_js = \<lparr>w_path = output @ ''/index.js'',
                                    w_data = Str (exportAll icons fmt), w_awaited = True\<rparr>;
                       index_dts = \<lparr>w_path = output @ ''/index.d.ts'',
                                     w_data = Str (exportAll icons Esm), w_awaited = True\<rparr>
                   in case ensureWrite env index_js of
                        Some e \<Rightarrow> \<lparr>rejected = Some e, writes = started @ [index_js], lost = []\<rparr>
                      | None \<Rightarrow>
                          \<lparr>rejected = ensureWrite env index_dts,
                            writes = started @ [index_js, index_dts], lost = []\<rparr>)))"

text \<open>
  The outcome of the process. \<^verbatim>\<open>main\<close> awaits both builds under one \<^verbatim>\<open>try\<close>; its
  \<^verbatim>\<open>catch\<close> logs (\<open>logged\<close>) the rejection of \<^verbatim>\<open>Promise.all\<close> (of the esm build when both reject; in
  the program, of the one that rejects first). The script never sets an exit code.

  When an unawaited write of either build fails, the process ends at the first such
  rejection (\<open>unhandled\<close>, code 1): neither build has written an index file, and \<^verbatim>\<open>main\<close>
  has caught at most a rejection from before the writes (\<open>early\<close>). \<open>all_writes\<close> are the
  calls of \<^verbatim>\<open>ensureWrite\<close> that the process made.
\<close>

record build_run =
  stdout :: "string list"
  logged :: "js_error list"
  all_writes :: "write_op list"
  unhandled :: "js_error list"
  exit_code :: nat

definition early :: "build_result \<Rightarrow> js_error option" where
  "early b = (if list_ex w_awaited (writes b) then None else rejected b)"

definition main :: "build_env \<Rightarrow> string option \<Rightarrow> build_run" where
  "main env arg =
     (let target = (case arg of None \<Rightarrow> ''undefined'' | Some t \<Rightarrow> t);
          esm = build env target Esm;
          cjs = build env target Cjs;
          unawaited = lost esm @ lost cjs
      in if unawaited = []
         then (let caught = (case rejected esm of Some e \<Rightarrow> Some e | None \<Rightarrow> rejected cjs)
               in \<lparr>stdout = [''Building '' @ target @ '' package...''] @
                    (case caught of None \<Rightarrow> [''Finished building '' @ target @ '' package.'']
                     | Some e \<Rightarrow> []),
                   logged = (case caught of None \<Rightarrow> [] | Some e \<Rightarrow> [e]),
                   all_writes = writes esm @ writes cjs,
                   unhandled = [],
                   exit_code = 0\<rparr>)
         else (let caught = (case early esm of Some e \<Rightarrow> Some e | None \<Rightarrow> early cjs)
               in \<lparr>stdout = [''Building '' @ target @ '' package...''],
                   logged = (case caught of None \<Rightarrow> [] | Some e \<Rightarrow> [e]),
                   all_writes = filter (\<lambda>w. \<not> w_awaited w) (writes esm @ writes cjs),
                   unhandled = take 1 unawaited,
                   exit_code = 1\<rparr>))"

section \<open>The release script\<close>

text \<open>
  The release script is the source file without a name (\<^verbatim>\<open>src/unnamed/part_000\<close>). It works
  on the package manifests, runs commands, asks questions and logs. The model keeps the
  manifests as a state, records everything else the script does as a trace of events, and
  takes every answer of the outside world from an environment.
\<close>

subsection \<open>Manifests\<close>

datatype json =
    JNull
  | JBool bool
  | JNum int
  | JStr string
  | JArr "json list"
  | JObj "(string \<times> json) list"

text \<open>
  A \<^verbatim>\<open>package.json\<close> is modelled by the object that \<^verbatim>\<open>JSON.parse\<close> reads from it; a file
  that is missing or does not parse to an object is \<open>None\<close>, and reading it throws.
\<close>

type_synonym manifest = "(string \<times> json) list"

datatype pkg_root = Root | Pkg string

fun truthy :: "json \<Rightarrow> bool" where
  "truthy JNull = False"
| "truthy (JBool b) = b"
| "truthy (JNum n) = (n \<noteq> 0)"
| "truthy (JStr s) = (s \<noteq> [])"
| "truthy (JArr xs) = True"
| "truthy (JObj kvs) = True"

text \<open>
  \<^verbatim>\<open>pkg.version = version\<close> followed by \<^verbatim>\<open>JSON.stringify\<close>: a version that is
  \<^verbatim>\<open>undefined\<close> (\<open>None\<close>) leaves the key out of the written file.
\<close>

definition set_version :: "json option \<Rightarrow> manifest \<Rightarrow> manifest" where
  "set_version v pkg =
     (case v of None \<Rightarrow> AList.delete ''version'' pkg
      | Some j \<Rightarrow> AList.update ''version'' j pkg)"

definition version_of :: "manifest \<Rightarrow> json option" where
  "version_of pkg = map_of pkg ''version''"

subsection \<open>Events, environment, state\<close>

text \<open>
  \<open>Exec cwd cmd\<close> is a call of \<^verbatim>\<open>execSync\<close> (\<open>cwd = None\<close>: the working directory of the
  process), \<open>DryRun cmd\<close> the line that \<^verbatim>\<open>dryRun\<close> logs in its place. \<open>WriteManifest r v\<close> is
  a \<^verbatim>\<open>package.json\<close> written with version \<open>v\<close>. \<open>LogThrown e\<close> is \<^verbatim>\<open>console.error(e)\<close> of a
  caught error. Colours are left out of the logged texts.
\<close>

datatype event =
    Exec "string option" string
  | DryRun string
  | Log string
  | LogError string
  | LogThrown js_error
  | Ask string
  | Fetch string
  | WriteManifest pkg_root "json option"
  | OpenUrl string string
  | CreateRelease string string

datatype release_type = Major | Minor | Patch | Custom

text \<open>
  The environment: the command line (\<open>dry\<close>, \<open>version_arg\<close>), \<^verbatim>\<open>GITHUB_TOKEN\<close>, the
  entries of \<^verbatim>\<open>../packages\<close> (each with whether it is a directory), the manifests as they
  are when the script starts, whether writing a manifest fails, what every command
  returns or throws, the \<^verbatim>\<open>sha\<close> that the fetch of the remote commit gives, the answers to
  the five prompts, the \<^verbatim>\<open>semver\<close> package, what reading \<^verbatim>\<open>CHANGELOG.md\<close> and executing the
  heading pattern for a version gives (\<open>Inr None\<close>: \<^verbatim>\<open>exec\<close> returns \<^verbatim>\<open>null\<close>, there is no
  section for the version; \<open>Inr (Some notes)\<close>: the second group of the match), and the
  outcomes of \<^verbatim>\<open>open\<close> and of the release call of the GitHub client.
\<close>

record release_env =
  dry :: bool
  version_arg :: "string option"
  token :: "string option"
  packages_dir :: "(string \<times> bool) list"
  manifests0 :: "pkg_root \<Rightarrow> manifest option"
  manifest_write_error :: "pkg_root \<Rightarrow> js_error option"
  exec :: "string option \<Rightarrow> string \<Rightarrow> js_error + string"
  fetch_sha :: "js_error + string option"
  ask_sync :: "js_error + bool"
  ask_type :: "js_error + release_type"
  ask_version :: "js_error + string"
  ask_confirm :: "js_error + bool"
  ask_changelog :: "js_error + bool"
  semver_valid :: "string \<Rightarrow> bool"
  semver_inc :: "json option \<Rightarrow> string \<Rightarrow> string option"
  changelog_notes :: "string \<Rightarrow> js_error + string option"
  open_result :: "js_error option"
  create_release :: "js_error option"

record rstate =
  manifests :: "pkg_root \<Rightarrow> manifest option"
  versionUpdated :: bool
  trace :: "event list"

text \<open>
  A step of the script: from a state to a value or a thrown error, and the state after
  it. \<open>bnd\<close> is sequencing (a thrown error skips the rest), \<open>catch\<close> is \<^verbatim>\<open>try\<close>/\<^verbatim>\<open>catch\<close>.
\<close>

type_synonym 'a act = "rstate \<Rightarrow> (js_error + 'a) \<times> rstate"

definition ret :: "'a \<Rightarrow> 'a act" where
  "ret x = (\<lambda>s. (Inr x, s))"

definition throw :: "js_error \<Rightarrow> 'a act" where
  "throw e = (\<lambda>s. (Inl e, s))"

definition lift :: "js_error + 'a \<Rightarrow> 'a act" where
  "lift r = (\<lambda>s. (r, s))"

definition bnd :: "'a act \<Rightarrow> ('a \<Rightarrow> 'b act) \<Rightarrow> 'b act" where
  "bnd m k = (\<lambda>s. case m s of (Inl e, s') \<Rightarrow> (Inl e, s') | (Inr x, s') \<Rightarrow> k x s')"

definition catch :: "'a act \<Rightarrow> (js_error \<Rightarrow> 'a act) \<Rightarrow> 'a act" where
  "catch m h = (\<lambda>s. case m s of (Inl e, s') \<Rightarrow> h e s' | (Inr x, s') \<Rightarrow> (Inr x, s'))"

definition emit :: "event \<Rightarrow> unit act" where
  "emit ev = (\<lambda>s. (Inr (), s\<lparr>trace := trace s @ [ev]\<rparr>))"

fun for_each :: "'a list \<Rightarrow> ('a \<Rightarrow> unit act) \<Rightarrow> unit act" where
  "for_each [] f = ret ()"
| "for_each (x # xs) f = bnd (f x) (\<lambda>_. for_each xs f)"

definition message_of :: "js_error \<Rightarrow> string" where
  "message_of e = (case e of Error m \<Rightarrow> m | TypeError m \<Rightarrow> m | SystemError m \<Rightarrow> m)"

subsection \<open>Module level: currentVersion and packages\<close>

definition enoent :: js_error where
  "enoent = SystemError ''ENOENT: no such file or directory''"

text \<open>
  \<^verbatim>\<open>packages\<close>: the entries of \<^verbatim>\<open>../packages\<close> that are directories and whose manifest is
  not private. The callback returns \<^verbatim>\<open>undefined\<close> for an entry that is no directory.
\<close>

fun load_packages :: "release_env \<Rightarrow> (string \<times> bool) list \<Rightarrow> js_error + string list" where
  "load_packages env [] = Inr []"
| "load_packages env ((p, is_dir) # ps) =
     (if is_dir
      then (case manifests0 env (Pkg p) of
              None \<Rightarrow> Inl enoent
            | Some pkg \<Rightarrow>
                (case load_packages env ps of
                   Inl e \<Rightarrow> Inl e
                 | Inr qs \<Rightarrow>
                     Inr (if (case map_of pkg ''private'' of None \<Rightarrow> False | Some j \<Rightarrow> truthy j)
                          then qs else p # qs)))
      else load_packages env ps)"

definition load :: "release_env \<Rightarrow> js_error + (json option \<times> string list)" where
  "load env =
     (case manifests0 env Root of
        None \<Rightarrow> Inl enoent
      | Some pkg \<Rightarrow>
          (case load_packages env (packages_dir env) of
             Inl e \<Rightarrow> Inl e
           | Inr ps \<Rightarrow> Inr (version_of pkg, ps)))"

subsection \<open>The helpers\<close>

definition run :: "release_env \<Rightarrow> string option \<Rightarrow> string \<Rightarrow> string act" where
  "run env cwd command = bnd (emit (Exec cwd command)) (\<lambda>_. lift (exec env cwd command))"

definition dryRun :: "string \<Rightarrow> unit act" where
  "dryRun command = emit (DryRun command)"

definition runIfNotDry :: "release_env \<Rightarrow> string \<Rightarrow> unit act" where
  "runIfNotDry env command =
     (if dry env then dryRun command else bnd (run env None command) (\<lambda>_. ret ()))"

definition step :: "string \<Rightarrow> unit act" where
  "step message = emit (Log message)"

definition prompt :: "string \<Rightarrow> js_error + 'a \<Rightarrow> 'a act" where
  "prompt message answer = bnd (emit (Ask message)) (\<lambda>_. lift answer)"

definition isMainBranch :: "release_env \<Rightarrow> bool act" where
  "isMainBranch env =
     bnd (run env None ''git branch --show-current'') (\<lambda>out. ret (trim out = ''main''))"

definition getLatestCommitHash :: "release_env \<Rightarrow> string act" where
  "getLatestCommitHash env = bnd (run env None ''git rev-parse HEAD'') (\<lambda>out. ret (trim out))"

text \<open>\<^verbatim>\<open>/github\.com\/([^\/]+)\/([^\/]+?)(?:\.git)?$/\<close>\<close>

definition rx_remote :: "atom list" where
  "rx_remote =
     [Lit ''github.com/'', Rep True 1 None (nonc CHR ''/'') True, Lit ''/'',
      Rep False 1 None (nonc CHR ''/'') True, OptLit ''.git'', Eos]"

text \<open>
  Destructuring \<^verbatim>\<open>null\<close> as an array throws a \<^verbatim>\<open>TypeError\<close> of the engine; its message, as
  V8 words it, names the expression that gave \<^verbatim>\<open>null\<close>.
\<close>

definition not_iterable :: "string \<Rightarrow> js_error" where
  "not_iterable what = TypeError (what @ '' is not iterable'')"

definition getRepoInfo :: "release_env \<Rightarrow> (string \<times> string) act" where
  "getRepoInfo env =
     bnd (run env None ''git remote get-url origin'') (\<lambda>out.
       case rsearch rx_remote (trim out) of
         None \<Rightarrow> throw (not_iterable ''remote.match(...)'')
       | Some (pre, caps, rest) \<Rightarrow> ret (caps ! 0, caps ! 1))"

definition isWorkspaceClean :: "release_env \<Rightarrow> bool act" where
  "isWorkspaceClean env = bnd (run env None ''git diff'') (\<lambda>out. ret (trim out = []))"

definition isInSyncWithRemote :: "release_env \<Rightarrow> bool act" where
  "isInSyncWithRemote env =
     catch
       (bnd (getRepoInfo env) (\<lambda>(owner, repo).
        bnd (emit (Fetch (''https://api.github.com/repos/'' @ owner @ ''/'' @ repo @
                          ''/commits/main?per_page=1''))) (\<lambda>_.
        bnd (lift (fetch_sha env)) (\<lambda>sha.
        bnd (getLatestCommitHash env) (\<lambda>head.
          if sha = Some head then ret True
          else prompt ''Local HEAD is not up-to-date with remote. Are you sure you want to continue?''
                 (ask_sync env))))))
       (\<lambda>e. bnd (emit (LogError ''Failed to check whether local HEAD is up-to-date with remote.''))
               (\<lambda>_. ret False))"

definition updatePackageVersion :: "release_env \<Rightarrow> pkg_root \<Rightarrow> json option \<Rightarrow> unit act" where
  "updatePackageVersion env pkgRoot version =
     (\<lambda>s. case manifests s pkgRoot of
             None \<Rightarrow> (Inl enoent, s)
           | Some pkg \<Rightarrow>
               (case manifest_write_error env pkgRoot of
                  Some e \<Rightarrow> (Inl e, s)
                | None \<Rightarrow>
                    (Inr (), s\<lparr>manifests := (manifests s)(pkgRoot := Some (set_version version pkg)),
                               trace := trace s @ [WriteManifest pkgRoot version]\<rparr>)))"

definition updatePackagesVersion :: "release_env \<Rightarrow> string list \<Rightarrow> json option \<Rightarrow> unit act" where
  "updatePackagesVersion env packages version =
     bnd (updatePackageVersion env Root version) (\<lambda>_.
       for_each packages (\<lambda>p. updatePackageVersion env (Pkg p) version))"

definition package_dir :: "string \<Rightarrow> string" where
  "package_dir pkgName = ''../packages/'' @ pkgName"

definition publishPackage :: "release_env \<Rightarrow> string \<Rightarrow> string \<Rightarrow> string list \<Rightarrow> unit act" where
  "publishPackage env pkgName version flags =
     bnd (step (''Publishing '' @ pkgName @ ''...'')) (\<lambda>_.
       catch
         (bnd (run env (Some (package_dir pkgName))
                 (''pnpm publish --access publish '' @ join '' '' flags)) (\<lambda>_.
            emit (Log (''Successfully published '' @ pkgName @ ''@'' @ version))))
         (\<lambda>e. if sublist ''previously published'' (message_of e)
               then emit (Log (''Skipping already published: '' @ pkgName))
               else throw e))"

definition publishPackages :: "release_env \<Rightarrow> string list \<Rightarrow> string \<Rightarrow> unit act" where
  "publishPackages env packages version =
     (let flags = (if dry env then [''--dry-run'', ''--no-git-checks''] else [])
      in for_each packages (\<lambda>pkg. publishPackage env pkg version flags))"

definition publishGitHubRelease :: "release_env \<Rightarrow> string \<Rightarrow> unit act" where
  "publishGitHubRelease env version =
     bnd (getRepoInfo env) (\<lambda>(owner, repo).
     bnd (lift (changelog_notes env version)) (\<lambda>found.
       case found of
         None \<Rightarrow> throw (not_iterable ''(intermediate value).exec(...)'')
       | Some notes \<Rightarrow>
           if dry env then step (CHR ''\<newline>'' # ''Dry run - skipping github release...'')
           else if token env = None \<or> token env = Some []
           then bnd (emit (OpenUrl (''v'' @ version) notes)) (\<lambda>_.
                  case open_result env of Some e \<Rightarrow> throw e | None \<Rightarrow> ret ())
           else bnd (emit (CreateRelease (''v'' @ version) notes)) (\<lambda>_.
                  case create_release env of Some e \<Rightarrow> throw e | None \<Rightarrow> ret ())))"

subsection \<open>main\<close>

text \<open>
  The choices of the select prompt, \<^verbatim>\<open>/\((.*)\)/\<close>, and lines 203 to 225: the target
  version.
\<close>

definition choice_text :: "release_env \<Rightarrow> json option \<Rightarrow> release_type \<Rightarrow> string" where
  "choice_text env currentVersion t =
     (let suggest = (\<lambda>i. i @ '' ('' @
            (case semver_inc env currentVersion i of None \<Rightarrow> ''null'' | Some v \<Rightarrow> v) @ '')'')
      in case t of Major \<Rightarrow> suggest ''major'' | Minor \<Rightarrow> suggest ''minor''
         | Patch \<Rightarrow> suggest ''patch'' | Custom \<Rightarrow> ''custom'')"

definition rx_parens :: "atom list" where
  "rx_parens = [Lit ''('', Rep True 0 None dot True, Lit '')'']"

definition resolve_version :: "release_env \<Rightarrow> json option \<Rightarrow> string act" where
  "resolve_version env currentVersion =
     (case version_arg env of
        Some (c # cs) \<Rightarrow> ret (c # cs)
      | _ \<Rightarrow>
          bnd (prompt ''Select release type'' (ask_type env)) (\<lambda>t.
            let type = choice_text env currentVersion t in
            if type = ''custom''
            then prompt ''Input custom version'' (ask_version env)
            else ret (case rsearch rx_parens type of
                        None \<Rightarrow> []
                      | Some (pre, caps, rest) \<Rightarrow> caps ! 0)))"

text \<open>
  Lines 246 to 293: what \<^verbatim>\<open>main\<close> does once the manifests are rewritten and the flag is
  set.
\<close>

definition check_mark :: string where
  "check_mark = [CHR 0xE2, CHR 0x9C, CHR 0x93]"

definition after_version_update :: "release_env \<Rightarrow> string list \<Rightarrow> string \<Rightarrow> unit act" where
  "after_version_update env packages targetVersion =
     bnd (step (CHR ''\<newline>'' # ''Generating changelog...'')) (\<lambda>_.
     bnd (run env None ''conventional-changelog -p angular -i CHANGELOG.md -s'') (\<lambda>_.
     bnd (prompt ''Changelog generated. Does it look good?'' (ask_changelog env)) (\<lambda>changelog.
     if \<not> changelog then ret ()
     else
     bnd (step (CHR ''\<newline>'' # ''Updating lockfile...'')) (\<lambda>_.
     bnd (run env None ''pnpm install --prefer-offline'') (\<lambda>_.
     bnd (isWorkspaceClean env) (\<lambda>clean.
     bnd (if \<not> clean
          then bnd (step (CHR ''\<newline>'' # ''Committing changes...'')) (\<lambda>_.
               bnd (runIfNotDry env ''git add -A'') (\<lambda>_.
                 runIfNotDry env
                   (''git commit -m '' @ [CHR 0x22] @ ''chore(release): release v'' @
                    targetVersion @ [CHR 0x22])))
          else emit (Log (check_mark @ '' No changes to commit.'' @ [CHR ''\<newline>'']))) (\<lambda>_.
     bnd (step (CHR ''\<newline>'' # ''Pushing to github...'')) (\<lambda>_.
     bnd (runIfNotDry env (''git tag v'' @ targetVersion)) (\<lambda>_.
     bnd (runIfNotDry env (''git push origin refs/tags/v'' @ targetVersion)) (\<lambda>_.
     bnd (runIfNotDry env ''git push'') (\<lambda>_.
     bnd (step (CHR ''\<newline>'' # ''Publishing github release...'')) (\<lambda>_.
     bnd (publishGitHubRelease env targetVersion) (\<lambda>_.
     bnd (step (CHR ''\<newline>'' # ''Building all packages...'')) (\<lambda>_.
     bnd (run env None ''pnpm build'') (\<lambda>_.
     bnd (step (CHR ''\<newline>'' # ''Publishing packages...'')) (\<lambda>_.
     bnd (publishPackages env packages targetVersion) (\<lambda>_.
     bnd (if dry env
          then emit (Log (CHR ''\<newline>'' # ''Dry run finished - run git diff to see package changes.''))
          else ret ()) (\<lambda>_.
     emit (Log [])))))))))))))))))))"

text \<open>Lines 241 to 244, and then the rest.\<close>

definition set_versionUpdated :: "unit act" where
  "set_versionUpdated = (\<lambda>s. (Inr (), s\<lparr>versionUpdated := True\<rparr>))"

definition release_steps :: "release_env \<Rightarrow> string list \<Rightarrow> string \<Rightarrow> unit act" where
  "release_steps env packages targetVersion =
     bnd (step (CHR ''\<newline>'' # ''Updating packages versions...'')) (\<lambda>_.
     bnd (updatePackagesVersion env packages (Some (JStr targetVersion))) (\<lambda>_.
     bnd set_versionUpdated (\<lambda>_.
     after_version_update env packages targetVersion)))"

text \<open>
  Lines 192 to 201: the two checks; \<open>False\<close> when \<^verbatim>\<open>main\<close> returns there.
\<close>

definition checks :: "release_env \<Rightarrow> bool act" where
  "checks env =
     bnd (isMainBranch env) (\<lambda>on_main.
       if \<not> on_main
       then bnd (emit (LogError ''Can only be published on the main branch.'')) (\<lambda>_. ret False)
       else bnd (isInSyncWithRemote env) (\<lambda>in_sync.
              if \<not> in_sync then ret False
              else bnd (emit (Log (check_mark @ '' Commit is up-to-date with remote.'' @
                                   [CHR ''\<newline>'']))) (\<lambda>_. ret True)))"

text \<open>
  Lines 227 to 239: the validation of the target version and the confirmation; \<open>False\<close>
  when the release is not confirmed.
\<close>

definition validate_and_confirm :: "release_env \<Rightarrow> string \<Rightarrow> bool act" where
  "validate_and_confirm env targetVersion =
     (if \<not> semver_valid env targetVersion
      then throw (Error (''Invalid target version: '' @ targetVersion))
      else prompt (''Releasing v'' @ targetVersion @ ''. Confirm?'') (ask_confirm env))"

definition main_release :: "release_env \<Rightarrow> json option \<Rightarrow> string list \<Rightarrow> unit act" where
  "main_release env currentVersion packages =
     bnd (checks env) (\<lambda>go.
       if \<not> go then ret ()
       else bnd (resolve_version env currentVersion) (\<lambda>targetVersion.
            bnd (validate_and_confirm env targetVersion) (\<lambda>confirm.
              if \<not> confirm then ret ()
              else release_steps env packages targetVersion)))"

subsection \<open>The process\<close>

text \<open>
  The outcome of the process: the last state and the exit status. An error at module
  level is uncaught (status 1). When \<^verbatim>\<open>main\<close> returns, the process ends with status 0.
  When it throws, the handler of \<^verbatim>\<open>main().catch\<close> rolls the versions back if the flag is
  set, logs the error and calls \<^verbatim>\<open>process.exit(1)\<close>; an error thrown by the handler itself
  is an unhandled rejection (status 1, by Node).

  Commands, prompts and the network are taken not to touch the manifests: only
  \<^verbatim>\<open>updatePackageVersion\<close> changes them. Whether a manifest can be written depends on the
  file alone (\<open>manifest_write_error\<close>): one that was written once can be written again.
\<close>

record outcome =
  final :: rstate
  status :: nat

definition start :: "release_env \<Rightarrow> rstate" where
  "start env = \<lparr>manifests = manifests0 env, versionUpdated = False, trace = []\<rparr>"

definition on_error :: "release_env \<Rightarrow> json option \<Rightarrow> string list \<Rightarrow> js_error \<Rightarrow> unit act" where
  "on_error env currentVersion packages e =
     bnd (\<lambda>s. if versionUpdated s then updatePackagesVersion env packages currentVersion s
              else (Inr (), s)) (\<lambda>_.
       emit (LogThrown e))"

definition release :: "release_env \<Rightarrow> outcome" where
  "release env =
     (case load env of
        Inl e \<Rightarrow> \<lparr>final = start env, status = 1\<rparr>
      | Inr (currentVersion, packages) \<Rightarrow>
          (case main_release env currentVersion packages (start env) of
             (Inr u, s) \<Rightarrow> \<lparr>final = s, status = 0\<rparr>
           | (Inl e, s) \<Rightarrow>
               \<lparr>final = snd (on_error env currentVersion packages e s), status = 1\<rparr>))"

subsection \<open>Notions for the properties of the release script\<close>

text \<open>
  The manifests that \<^verbatim>\<open>updatePackagesVersion\<close> rewrites, in its order: the root manifest,
  then one per package. \<open>present env rs s\<close>: every one of the manifests \<open>rs\<close> is there and
  can be written. \<open>updated env rs v s s'\<close>: from \<open>s\<close> to \<open>s'\<close> exactly the manifests \<open>rs\<close> were
  written with version \<open>v\<close>, in that order.
\<close>

definition targets :: "string list \<Rightarrow> pkg_root list" where
  "targets packages = Root # map Pkg packages"

definition present :: "release_env \<Rightarrow> pkg_root list \<Rightarrow> rstate \<Rightarrow> bool" where
  "present env rs s = list_all (\<lambda>r. manifests s r \<noteq> None \<and> manifest_write_error env r = None) rs"

definition updated :: "release_env \<Rightarrow> pkg_root list \<Rightarrow> json option \<Rightarrow> rstate \<Rightarrow> rstate \<Rightarrow> bool" where
  "updated env rs v s s' =
     (trace s' = trace s @ map (\<lambda>r. WriteManifest r v) rs \<and>
      versionUpdated s' = versionUpdated s \<and>
      (\<forall>r \<in> set rs. \<exists>m. manifests s' r = Some m \<and> version_of m = v) \<and>
      (\<forall>r. r \<notin> set rs \<longrightarrow> manifests s' r = manifests s r) \<and>
      (\<forall>r. (manifests s' r = None) = (manifests s r = None)))"

text \<open>
  \<open>frame m\<close>: the action \<open>m\<close> leaves the manifests and the flag as they are.
  \<open>emits P m\<close>: every event that \<open>m\<close> adds to the trace satisfies \<open>P\<close>.
  \<open>add_events s evs\<close>: the state \<open>s\<close> with \<open>evs\<close> added to its trace.
\<close>

definition frame :: "'a act \<Rightarrow> bool" where
  "frame m = (\<forall>s. manifests (snd (m s)) = manifests s \<and>
                   versionUpdated (snd (m s)) = versionUpdated s)"

named_theorems frame_intros

definition emits :: "(event \<Rightarrow> bool) \<Rightarrow> 'a act \<Rightarrow> bool" where
  "emits P m = (\<forall>s. \<exists>evs. trace (snd (m s)) = trace s @ evs \<and> list_all P evs)"

named_theorems emits_intros

definition add_events :: "rstate \<Rightarrow> event list \<Rightarrow> rstate" where
  "add_events s evs = s\<lparr>trace := trace s @ evs\<rparr>"

text \<open>
  \<open>skipped_in_dry\<close>: what a dry run must not do: run \<^verbatim>\<open>git add\<close>, \<^verbatim>\<open>git commit\<close>,
  \<^verbatim>\<open>git tag\<close> or \<^verbatim>\<open>git push\<close>, open the release page or create the release.
  \<open>harmless\<close>: an event that changes nothing: no manifest written, no release, and of the
  commands only the three git queries of the checks.
\<close>

definition skipped_in_dry :: "event \<Rightarrow> bool" where
  "skipped_in_dry ev =
     (case ev of
        Exec cwd c \<Rightarrow> prefix ''git add'' c \<or> prefix ''git commit'' c \<or>
                      prefix ''git tag'' c \<or> prefix ''git push'' c
      | OpenUrl tag notes \<Rightarrow> True
      | CreateRelease tag notes \<Rightarrow> True
      | _ \<Rightarrow> False)"

definition harmless :: "event \<Rightarrow> bool" where
  "harmless ev =
     (case ev of
        Exec cwd c \<Rightarrow> cwd = None \<and> c \<in> set [''git branch --show-current'',
                         ''git remote get-url origin'', ''git rev-parse HEAD'']
      | WriteManifest r v \<Rightarrow> False
      | OpenUrl tag notes \<Rightarrow> False
      | CreateRelease tag notes \<Rightarrow> False
      | _ \<Rightarrow> True)"

text \<open>
  What a dry run does after the manifests are rewritten, when every command succeeds and
  the changelog is confirmed; \<open>clean\<close> tells whether \<^verbatim>\<open>git diff\<close> printed nothing.
\<close>

definition dry_run_events :: "string list \<Rightarrow> string \<Rightarrow> bool \<Rightarrow> event list" where
  "dry_run_events packages targetVersion clean =
     [Log (CHR ''\<newline>'' # ''Generating changelog...''),
      Exec None ''conventional-changelog -p angular -i CHANGELOG.md -s'',
      Ask ''Changelog generated. Does it look good?'',
      Log (CHR ''\<newline>'' # ''Updating lockfile...''),
      Exec None ''pnpm install --prefer-offline'',
      Exec None ''git diff''] @
     (if clean then [Log (check_mark @ '' No changes to commit.'' @ [CHR ''\<newline>''])]
      else [Log (CHR ''\<newline>'' # ''Committing changes...''),
            DryRun ''git add -A'',
            DryRun (''git commit -m '' @ [CHR 0x22] @ ''chore(release): release v'' @
                    targetVersion @ [CHR 0x22])]) @
     [Log (CHR ''\<newline>'' # ''Pushing to github...''),
      DryRun (''git tag v'' @ targetVersion),
      DryRun (''git push origin refs/tags/v'' @ targetVersion),
      DryRun ''git push'',
      Log (CHR ''\<newline>'' # ''Publishing github release...''),
      Exec None ''git remote get-url origin'',
      Log (CHR ''\<newline>'' # ''Dry run - skipping github release...''),
      Log (CHR ''\<newline>'' # ''Building all packages...''),
      Exec None ''pnpm build'',
      Log (CHR ''\<newline>'' # ''Publishing packages...'')] @
     concat (map (\<lambda>p. [Log (''Publishing '' @ p @ ''...''),
                         Exec (Some (package_dir p))
                           ''pnpm publish --access publish --dry-run --no-git-checks'',
                         Log (''Successfully published '' @ p @ ''@'' @ targetVersion)]) packages) @
     [Log (CHR ''\<newline>'' # ''Dry run finished - run git diff to see package changes.''),
      Log []]"

section \<open>Example inputs\<close>

definition demo_svg :: string where
  \<open>demo_svg = ''<svg width="24" height="24"><path d="M0 0"/></svg>''\<close>

definition demo_env :: build_env where
  \<open>demo_env = \<lparr>
     assets_dir = Inr [''git-hub.svg''],
     asset_file = (\<lambda>p. Inr demo_svg),
     svgr = (\<lambda>s n. Inr (''const '' @ n @ '' = () => '' @ s @ '';'')),
     swc = (\<lambda>c f. Inr c),
     vue_compiler = (\<lambda>s. Inr (''export function render() { return `'' @ s @ ''` }'')),
     mkdir_error = (\<lambda>p. None),
     write_error = (\<lambda>p. None)\<rparr>\<close>

text \<open>The same, where writing one component file of the vue esm build fails.\<close>

definition failing_write_env :: build_env where
  "failing_write_env = demo_env\<lparr>write_error :=
     (\<lambda>p. if p = ''./packages/vue/esm/GitHub.js'' then Some (SystemError ''EACCES'') else None)\<rparr>"

text \<open>The same with two icons.\<close>

definition two_icons_env :: build_env where
  "two_icons_env = demo_env\<lparr>assets_dir := Inr [''git-hub.svg'', ''vue.svg'']\<rparr>"









section \<open>Example runs of the release script\<close>

text \<open>
  A repository at version 1.9.0 with the packages \<^verbatim>\<open>react\<close> and \<^verbatim>\<open>vue\<close>, a private package
  \<^verbatim>\<open>docs\<close> and a file \<^verbatim>\<open>README.md\<close> in \<^verbatim>\<open>packages\<close>, on the main branch and in sync with
  the remote; the script is called with the version 2.0.0, every command succeeds and
  every question is answered with yes.
\<close>

definition demo_manifest :: "string \<Rightarrow> bool \<Rightarrow> manifest" where
  "demo_manifest name priv =
     [(''name'', JStr name), (''version'', JStr ''1.9.0''), (''private'', JBool priv)]"

definition demo_exec :: "string option \<Rightarrow> string \<Rightarrow> js_error + string" where
  "demo_exec cwd command =
     (if command = ''git branch --show-current'' then Inr (''main'' @ [CHR ''\<newline>''])
      else if command = ''git remote get-url origin''
      then Inr (''https://github.com/985563349/skill-icons.git'' @ [CHR ''\<newline>''])
      else if command = ''git rev-parse HEAD'' then Inr (''0a1b2c3'' @ [CHR ''\<newline>''])
      else if command = ''git diff'' then Inr ''diff --git a/package.json b/package.json''
      else Inr [])"

definition release_demo :: release_env where
  "release_demo = \<lparr>
     dry = False,
     version_arg = Some ''2.0.0'',
     token = Some ''t0ken'',
     packages_dir = [(''react'', True), (''vue'', True), (''docs'', True), (''README.md'', False)],
     manifests0 = (\<lambda>r. case r of
         Root \<Rightarrow> Some (demo_manifest ''skill-icons'' True)
       | Pkg p \<Rightarrow> (if p = ''react'' then Some (demo_manifest ''@skill-icons/react'' False)
                   else if p = ''vue'' then Some (demo_manifest ''@skill-icons/vue'' False)
                   else if p = ''docs'' then Some (demo_manifest ''docs'' True)
                   else None)),
     manifest_write_error = (\<lambda>r. None),
     exec = demo_exec,
     fetch_sha = Inr (Some ''0a1b2c3''),
     ask_sync = Inr True,
     ask_type = Inr Minor,
     ask_version = Inr ''2.0.0'',
     ask_confirm = Inr True,
     ask_changelog = Inr True,
     semver_valid = (\<lambda>v. v = ''2.0.0''),
     semver_inc = (\<lambda>v t. None),
     changelog_notes = (\<lambda>v. Inr (Some ''* notes'')),
     open_result = None,
     create_release = None\<rparr>"

text \<open>The events of the two checks in these runs.\<close>

definition demo_checks :: "event list" where
  "demo_checks =
     [Exec None ''git branch --show-current'',
      Exec None ''git remote get-url origin'',
      Fetch ''https://api.github.com/repos/985563349/skill-icons/commits/main?per_page=1'',
      Exec None ''git rev-parse HEAD'',
      Log (check_mark @ '' Commit is up-to-date with remote.'' @ [CHR ''\<newline>''])]"

text \<open>
  The same run with a version that is no semantic version; with a changelog that has no
  section for the version; with a changelog command that fails; with the changelog
  rejected; and as a dry run.
\<close>

definition invalid_version_env :: release_env where
  "invalid_version_env = release_demo\<lparr>version_arg := Some ''not-a-version''\<rparr>"

definition no_section_env :: release_env where
  "no_section_env = release_demo\<lparr>changelog_notes := (\<lambda>v. Inr None)\<rparr>"


definition rejecting_env :: release_env where
  "rejecting_env = release_demo\<lparr>ask_changelog := Inr False\<rparr>"

definition dry_env :: release_env where
  "dry_env = release_demo\<lparr>dry := True\<rparr>"

section \<open>Facts about matching and replacing\<close>
























































section \<open>Facts about the build\<close>

lemma all_ok_Inr: "all_ok xs = Inr ys \<Longrightarrow> xs = map Inr ys"
proof (induction xs arbitrary: ys)
  case Nil
  then show ?case by simp
next
  case (Cons x xs)
  then show ?case by (cases x) (auto split: sum.splits)
qed

lemma icon_task_unawaited:
  "icon_task env target fmt output i = Inr ops \<Longrightarrow> w \<in> set ops \<Longrightarrow> \<not> w_awaited w"
  by (auto simp: icon_task_def Let_def split: sum.splits)

lemma started_unawaited:
  assumes "w \<in> set (concat (map (case_sum (\<lambda>e. []) id) (map (icon_task env target fmt output) icons)))"
  shows "\<not> w_awaited w"
proof -
  from assms obtain i where "i \<in> set icons"
    and w: "w \<in> set (case_sum (\<lambda>e. []) id (icon_task env target fmt output i))" by auto
  show ?thesis
  proof (cases "icon_task env target fmt output i")
    case (Inl e)
    then show ?thesis using w by simp
  next
    case (Inr ops)
    then show ?thesis using w icon_task_unawaited [OF Inr] by simp
  qed
qed

text \<open>The writes of a build that somebody awaits are its index files, with these texts.\<close>

lemma build_awaited:
  assumes "getIcons env = Inr icons" and "w \<in> set (writes (build env target fmt))" and "w_awaited w"
  shows "w = \<lparr>w_path = output_dir target fmt @ ''/index.js'',
              w_data = Str (exportAll icons fmt), w_awaited = True\<rparr> \<or>
         w = \<lparr>w_path = output_dir target fmt @ ''/index.d.ts'',
              w_data = Str (exportAll icons Esm), w_awaited = True\<rparr>"
  using assms started_unawaited [of w env target fmt "output_dir target fmt" icons]
  by (auto simp: build_def Let_def split: sum.splits if_splits option.splits)

text \<open>A build that neither rejects nor loses a write has written both index files.\<close>

lemma build_done:
  assumes "getIcons env = Inr icons" and "rejected (build env target fmt) = None"
    and "lost (build env target fmt) = []"
  shows "\<exists>started. writes (build env target fmt) = started @
           [\<lparr>w_path = output_dir target fmt @ ''/index.js'',
              w_data = Str (exportAll icons fmt), w_awaited = True\<rparr>,
            \<lparr>w_path = output_dir target fmt @ ''/index.d.ts'',
              w_data = Str (exportAll icons Esm), w_awaited = True\<rparr>]"
  using assms
  by (auto simp: build_def Let_def split: sum.splits if_splits option.splits)

lemma output_dir_inj: "output_dir target fmt = output_dir target fmt' \<Longrightarrow> fmt = fmt'"
  by (cases fmt; cases fmt') (simp_all add: output_dir_def)

section \<open>Facts about the release script\<close>

lemma bnd_apply:
  "bnd m k s = (case m s of (Inl e, s') \<Rightarrow> (Inl e, s') | (Inr x, s') \<Rightarrow> k x s')"
  by (simp add: bnd_def)

lemma catch_apply:
  "catch m h s = (case m s of (Inl e, s') \<Rightarrow> h e s' | (Inr x, s') \<Rightarrow> (Inr x, s'))"
  by (simp add: catch_def)

lemma ret_apply: "ret x s = (Inr x, s)"
  by (simp add: ret_def)

lemma throw_apply: "throw e s = (Inl e, s)"
  by (simp add: throw_def)

lemma lift_apply: "lift r s = (r, s)"
  by (simp add: lift_def)

lemma emit_apply: "emit ev s = (Inr (), s\<lparr>trace := trace s @ [ev]\<rparr>)"
  by (simp add: emit_def)

lemma bnd_cases:
  assumes "bnd m k s = (r, s')"
  obtains (thrown) e where "m s = (Inl e, s')" and "r = Inl e"
  | (went_on) x s1 where "m s = (Inr x, s1)" and "k x s1 = (r, s')"
proof (cases "m s")
  case (Pair a s1)
  show ?thesis
  proof (cases a)
    case (Inl e)
    then show ?thesis using assms Pair thrown by (simp add: bnd_apply)
  next
    case (Inr x)
    then show ?thesis using assms Pair went_on by (simp add: bnd_apply)
  qed
qed

lemma frame_ret [frame_intros]: "frame (ret x)"
  by (simp add: frame_def ret_def)

lemma frame_throw [frame_intros]: "frame (throw e)"
  by (simp add: frame_def throw_def)

lemma frame_lift [frame_intros]: "frame (lift r)"
  by (simp add: frame_def lift_def)

lemma frame_emit [frame_intros]: "frame (emit ev)"
  by (simp add: frame_def emit_def)

lemma frame_bnd [frame_intros]: "frame m \<Longrightarrow> (\<And>x. frame (k x)) \<Longrightarrow> frame (bnd m k)"
  unfolding frame_def bnd_def
  by (auto split: prod.splits sum.splits) (metis snd_conv)+

lemma frame_catch [frame_intros]: "frame m \<Longrightarrow> (\<And>e. frame (h e)) \<Longrightarrow> frame (catch m h)"
  unfolding frame_def catch_def
  by (auto split: prod.splits sum.splits) (metis snd_conv)+

lemma frame_if [frame_intros]: "frame a \<Longrightarrow> frame b \<Longrightarrow> frame (if c then a else b)"
  by simp

lemma frame_case_option [frame_intros]:
  "frame a \<Longrightarrow> (\<And>x. frame (b x)) \<Longrightarrow> frame (case v of None \<Rightarrow> a | Some x \<Rightarrow> b x)"
  by (cases v) simp_all

lemma frame_case_prod [frame_intros]:
  "(\<And>x y. frame (f x y)) \<Longrightarrow> frame (case p of (x, y) \<Rightarrow> f x y)"
  by (cases p) simp

lemma frame_case_list [frame_intros]:
  "frame a \<Longrightarrow> (\<And>x xs. frame (b x xs)) \<Longrightarrow> frame (case l of [] \<Rightarrow> a | x # xs \<Rightarrow> b x xs)"
  by (cases l) simp_all

lemma frame_Let [frame_intros]: "(\<And>x. frame (f x)) \<Longrightarrow> frame (Let v f)"
  by simp

lemma frame_for_each [frame_intros]: "(\<And>x. frame (f x)) \<Longrightarrow> frame (for_each xs f)"
  by (induction xs) (auto intro: frame_intros)

lemma frame_run [frame_intros]: "frame (run env cwd c)"
  unfolding run_def by (intro frame_intros)

lemma frame_runIfNotDry [frame_intros]: "frame (runIfNotDry env c)"
  unfolding runIfNotDry_def dryRun_def by (intro frame_intros)

lemma frame_step [frame_intros]: "frame (step m)"
  unfolding step_def by (intro frame_intros)

lemma frame_prompt [frame_intros]: "frame (prompt m a)"
  unfolding prompt_def by (intro frame_intros)

lemma frame_getRepoInfo [frame_intros]: "frame (getRepoInfo env)"
  unfolding getRepoInfo_def by (intro frame_intros)

lemma frame_isInSyncWithRemote [frame_intros]: "frame (isInSyncWithRemote env)"
  unfolding isInSyncWithRemote_def getLatestCommitHash_def by (intro frame_intros)

lemma frame_checks [frame_intros]: "frame (checks env)"
  unfolding checks_def isMainBranch_def by (intro frame_intros)

lemma frame_resolve_version [frame_intros]: "frame (resolve_version env cur)"
  unfolding resolve_version_def by (intro frame_intros)

lemma frame_validate_and_confirm [frame_intros]: "frame (validate_and_confirm env tv)"
  unfolding validate_and_confirm_def by (intro frame_intros)

lemma frame_publishGitHubRelease [frame_intros]: "frame (publishGitHubRelease env v)"
  unfolding publishGitHubRelease_def by (intro frame_intros)

lemma frame_publishPackages [frame_intros]: "frame (publishPackages env ps v)"
  unfolding publishPackages_def publishPackage_def by (intro frame_intros)

lemma frame_after_version_update [frame_intros]: "frame (after_version_update env ps tv)"
  unfolding after_version_update_def isWorkspaceClean_def by (intro frame_intros)

lemma frameD:
  "frame m \<Longrightarrow> m s = (r, s') \<Longrightarrow> manifests s' = manifests s \<and> versionUpdated s' = versionUpdated s"
  unfolding frame_def by (metis snd_conv)

lemma version_of_set_version: "version_of (set_version v m) = v"
  by (cases v) (simp_all add: version_of_def set_version_def update_conv delete_conv)

lemma upv_cases:
  assumes "updatePackageVersion env r v s = (res, s')"
  obtains (failed) e where "res = Inl e" and "s' = s"
  | (written) m where "res = Inr ()" and "manifests s r = Some m"
      and "manifest_write_error env r = None"
      and "s' = s\<lparr>manifests := (manifests s)(r := Some (set_version v m)),
                  trace := trace s @ [WriteManifest r v]\<rparr>"
  using assms unfolding updatePackageVersion_def
  by (auto split: option.splits)

lemma upv_ok:
  assumes "manifests s r = Some m" and "manifest_write_error env r = None"
  shows "updatePackageVersion env r v s =
           (Inr (), s\<lparr>manifests := (manifests s)(r := Some (set_version v m)),
                      trace := trace s @ [WriteManifest r v]\<rparr>)"
  using assms by (simp add: updatePackageVersion_def)

lemma for_each_update_ok:
  assumes "present env (map Pkg ps) s"
  shows "\<exists>s'. for_each ps (\<lambda>p. updatePackageVersion env (Pkg p) v) s = (Inr (), s') \<and>
              updated env (map Pkg ps) v s s'"
  using assms
proof (induction ps arbitrary: s)
  case Nil
  then show ?case by (simp add: ret_apply updated_def)
next
  case (Cons p ps)
  from Cons.prems obtain m where m: "manifests s (Pkg p) = Some m"
    and w: "manifest_write_error env (Pkg p) = None"
    and rest: "present env (map Pkg ps) s"
    by (auto simp: present_def)
  let ?s1 = "s\<lparr>manifests := (manifests s)(Pkg p := Some (set_version v m)),
                 trace := trace s @ [WriteManifest (Pkg p) v]\<rparr>"
  have one: "updatePackageVersion env (Pkg p) v s = (Inr (), ?s1)"
    using m w by (rule upv_ok)
  have "present env (map Pkg ps) ?s1"
    using rest by (auto simp: present_def list_all_iff)
  from Cons.IH [OF this] obtain s' where
    run: "for_each ps (\<lambda>p. updatePackageVersion env (Pkg p) v) ?s1 = (Inr (), s')"
    and upd: "updated env (map Pkg ps) v ?s1 s'" by blast
  have "for_each (p # ps) (\<lambda>p. updatePackageVersion env (Pkg p) v) s = (Inr (), s')"
    using one run by (simp add: bnd_apply)
  moreover have "updated env (map Pkg (p # ps)) v s s'"
  proof -
    have here: "\<exists>m'. manifests s' (Pkg p) = Some m' \<and> version_of m' = v"
    proof (cases "Pkg p \<in> set (map Pkg ps)")
      case True
      then show ?thesis using upd unfolding updated_def by blast
    next
      case False
      then have "manifests s' (Pkg p) = manifests ?s1 (Pkg p)" using upd unfolding updated_def by blast
      then show ?thesis by (simp add: version_of_set_version)
    qed
    show ?thesis
      using upd here m unfolding updated_def by auto
  qed
  ultimately show ?case by blast
qed

lemma updatePackagesVersion_ok:
  assumes "present env (targets ps) s"
  shows "\<exists>s'. updatePackagesVersion env ps v s = (Inr (), s') \<and> updated env (targets ps) v s s'"
proof -
  from assms obtain m where m: "manifests s Root = Some m"
    and w: "manifest_write_error env Root = None"
    and rest: "present env (map Pkg ps) s"
    by (auto simp: present_def targets_def)
  let ?s1 = "s\<lparr>manifests := (manifests s)(Root := Some (set_version v m)),
                 trace := trace s @ [WriteManifest Root v]\<rparr>"
  have one: "updatePackageVersion env Root v s = (Inr (), ?s1)"
    using m w by (rule upv_ok)
  have "present env (map Pkg ps) ?s1"
    using rest by (auto simp: present_def list_all_iff)
  from for_each_update_ok [OF this] obtain s' where
    run: "for_each ps (\<lambda>p. updatePackageVersion env (Pkg p) v) ?s1 = (Inr (), s')"
    and upd: "updated env (map Pkg ps) v ?s1 s'" by blast
  have "updatePackagesVersion env ps v s = (Inr (), s')"
    using one run by (simp add: updatePackagesVersion_def bnd_apply)
  moreover have "updated env (targets ps) v s s'"
  proof -
    have "manifests s' Root = manifests ?s1 Root" using upd by (auto simp: updated_def)
    then have "\<exists>m'. manifests s' Root = Some m' \<and> version_of m' = v"
      by (simp add: version_of_set_version)
    then show ?thesis using upd m unfolding updated_def targets_def by auto
  qed
  ultimately show ?thesis by blast
qed

lemma upv_flag:
  "updatePackageVersion env r v s = (res, s') \<Longrightarrow> versionUpdated s' = versionUpdated s"
  by (erule upv_cases) auto

lemma for_each_update_flag:
  "for_each ps (\<lambda>p. updatePackageVersion env (Pkg p) v) s = (res, s') \<Longrightarrow>
   versionUpdated s' = versionUpdated s"
proof (induction ps arbitrary: s)
  case Nil
  then show ?case by (simp add: ret_apply)
next
  case (Cons p ps)
  from Cons.prems show ?case
  proof (simp only: for_each.simps, elim bnd_cases)
    fix e assume "updatePackageVersion env (Pkg p) v s = (Inl e, s')"
    then show ?thesis by (rule upv_flag)
  next
    fix x s1 assume "updatePackageVersion env (Pkg p) v s = (Inr x, s1)"
      and "for_each ps (\<lambda>p. updatePackageVersion env (Pkg p) v) s1 = (res, s')"
    then show ?thesis using Cons.IH upv_flag by metis
  qed
qed

lemma updatePackagesVersion_flag:
  assumes "updatePackagesVersion env ps v s = (res, s')"
  shows "versionUpdated s' = versionUpdated s"
  using assms unfolding updatePackagesVersion_def
proof (elim bnd_cases)
  fix e assume "updatePackageVersion env Root v s = (Inl e, s')"
  then show ?thesis by (rule upv_flag)
next
  fix x s1 assume "updatePackageVersion env Root v s = (Inr x, s1)"
    and "for_each ps (\<lambda>p. updatePackageVersion env (Pkg p) v) s1 = (res, s')"
  then show ?thesis using for_each_update_flag upv_flag by metis
qed

lemma upv_keeps_presence:
  "updatePackageVersion env r v s = (res, s') \<Longrightarrow> present env rs s \<Longrightarrow> present env rs s'"
  by (erule upv_cases) (auto simp: present_def list_all_iff)

lemma for_each_update_present:
  assumes "for_each ps (\<lambda>p. updatePackageVersion env (Pkg p) v) s = (Inr u, s')"
  shows "present env (map Pkg ps) s' \<and> (\<forall>rs. present env rs s \<longrightarrow> present env rs s')"
  using assms
proof (induction ps arbitrary: s)
  case Nil
  then show ?case by (simp add: ret_apply present_def)
next
  case (Cons p ps)
  from Cons.prems obtain s1 where one: "updatePackageVersion env (Pkg p) v s = (Inr (), s1)"
    and run: "for_each ps (\<lambda>p. updatePackageVersion env (Pkg p) v) s1 = (Inr u, s')"
    by (auto simp: bnd_apply split: prod.splits sum.splits)
  have p1: "present env [Pkg p] s1"
    using one by (rule upv_cases) (auto simp: present_def)
  have keep1: "\<forall>rs. present env rs s \<longrightarrow> present env rs s1"
    using one upv_keeps_presence by blast
  from Cons.IH [OF run] have ih: "present env (map Pkg ps) s'"
    and keep2: "\<forall>rs. present env rs s1 \<longrightarrow> present env rs s'" by blast+
  have "present env [Pkg p] s'" using p1 keep2 by blast
  then have "present env (map Pkg (p # ps)) s'" using ih by (simp add: present_def)
  then show ?case using keep1 keep2 by blast
qed

lemma updatePackagesVersion_present:
  assumes "updatePackagesVersion env ps v s = (Inr u, s')"
  shows "present env (targets ps) s'"
proof -
  from assms obtain s1 where one: "updatePackageVersion env Root v s = (Inr (), s1)"
    and run: "for_each ps (\<lambda>p. updatePackageVersion env (Pkg p) v) s1 = (Inr u, s')"
    by (auto simp: updatePackagesVersion_def bnd_apply split: prod.splits sum.splits)
  have p1: "present env [Root] s1"
    using one by (rule upv_cases) (auto simp: present_def)
  from for_each_update_present [OF run] have ih: "present env (map Pkg ps) s'"
    and keep: "\<forall>rs. present env rs s1 \<longrightarrow> present env rs s'" by blast+
  have "present env [Root] s'" using p1 keep by blast
  then show ?thesis using ih by (simp add: present_def targets_def)
qed

lemma present_cong: "manifests s' = manifests s \<Longrightarrow> present env rs s' = present env rs s"
  by (simp add: present_def)

lemma release_steps_inv:
  assumes "release_steps env ps tv s = (res, s')" and "\<not> versionUpdated s"
  shows "versionUpdated s' \<longrightarrow> present env (targets ps) s'"
  using assms(1) unfolding release_steps_def
proof (elim bnd_cases)
  fix e assume "step (CHR ''\<newline>'' # ''Updating packages versions...'') s = (Inl e, s')"
  then show ?thesis using frameD [OF frame_step] assms(2) by metis
next
  fix x s1 e
  assume a: "step (CHR ''\<newline>'' # ''Updating packages versions...'') s = (Inr x, s1)"
    and b: "updatePackagesVersion env ps (Some (JStr tv)) s1 = (Inl e, s')"
  have "\<not> versionUpdated s1" using frameD [OF frame_step a] assms(2) by simp
  then show ?thesis using updatePackagesVersion_flag [OF b] by simp
next
  fix x s1 y s2 e
  assume "set_versionUpdated s2 = (Inl e, s')"
  then show ?thesis by (simp add: set_versionUpdated_def)
next
  fix x s1 y s2 z s3
  assume b: "updatePackagesVersion env ps (Some (JStr tv)) s1 = (Inr y, s2)"
    and c: "set_versionUpdated s2 = (Inr z, s3)"
    and d: "after_version_update env ps tv s3 = (res, s')"
  have "present env (targets ps) s2" using b by (rule updatePackagesVersion_present)
  moreover have "manifests s3 = manifests s2" using c by (auto simp: set_versionUpdated_def)
  moreover have "manifests s' = manifests s3"
    using frameD [OF frame_after_version_update d] by simp
  ultimately show ?thesis by (simp add: present_def)
qed

lemma main_release_inv:
  assumes "main_release env cur ps s = (res, s')" and "\<not> versionUpdated s"
  shows "versionUpdated s' \<longrightarrow> present env (targets ps) s'"
  using assms(1) unfolding main_release_def
proof (elim bnd_cases)
  fix e assume "checks env s = (Inl e, s')"
  then show ?thesis using frameD [OF frame_checks] assms(2) by metis
next
  fix go s1
  assume a: "checks env s = (Inr go, s1)"
    and rest: "(if \<not> go then ret ()
                else bnd (resolve_version env cur) (\<lambda>targetVersion.
                     bnd (validate_and_confirm env targetVersion) (\<lambda>confirm.
                       if \<not> confirm then ret () else release_steps env ps targetVersion))) s1
               = (res, s')"
  have f1: "\<not> versionUpdated s1" using frameD [OF frame_checks a] assms(2) by simp
  show ?thesis
  proof (cases go)
    case False
    then show ?thesis using rest f1 by (simp add: ret_apply)
  next
    case True
    with rest have "bnd (resolve_version env cur) (\<lambda>targetVersion.
                     bnd (validate_and_confirm env targetVersion) (\<lambda>confirm.
                       if \<not> confirm then ret () else release_steps env ps targetVersion)) s1
               = (res, s')" by simp
    then show ?thesis
    proof (elim bnd_cases)
      fix e assume "resolve_version env cur s1 = (Inl e, s')"
      then show ?thesis using frameD [OF frame_resolve_version] f1 by metis
    next
      fix tv s2 e assume b: "resolve_version env cur s1 = (Inr tv, s2)"
        and c: "validate_and_confirm env tv s2 = (Inl e, s')"
      have "\<not> versionUpdated s2" using frameD [OF frame_resolve_version b] f1 by simp
      then show ?thesis using frameD [OF frame_validate_and_confirm c] by simp
    next
      fix tv s2 confirm s3 assume b: "resolve_version env cur s1 = (Inr tv, s2)"
        and c: "validate_and_confirm env tv s2 = (Inr confirm, s3)"
        and d: "(if \<not> confirm then ret () else release_steps env ps tv) s3 = (res, s')"
      have "\<not> versionUpdated s2" using frameD [OF frame_resolve_version b] f1 by simp
      then have f3: "\<not> versionUpdated s3" using frameD [OF frame_validate_and_confirm c] by simp
      show ?thesis
      proof (cases confirm)
        case False
        then show ?thesis using d f3 by (simp add: ret_apply)
      next
        case True
        then have "release_steps env ps tv s3 = (res, s')" using d by simp
        then show ?thesis using f3 by (rule release_steps_inv)
      qed
    qed
  qed
qed

lemma release_rolls_back:
  assumes "load env = Inr (cur, ps)"
    and "main_release env cur ps (start env) = (Inl e, s)"
    and "versionUpdated s"
  shows "status (release env) = 1 \<and>
         trace (final (release env)) =
           trace s @ map (\<lambda>r. WriteManifest r cur) (Root # map Pkg ps) @ [LogThrown e] \<and>
         (\<forall>r \<in> set (Root # map Pkg ps).
            \<exists>m. manifests (final (release env)) r = Some m \<and> version_of m = cur)"
proof -
  have "\<not> versionUpdated (start env)" by (simp add: start_def)
  with assms(2) have "versionUpdated s \<longrightarrow> present env (targets ps) s"
    by (rule main_release_inv)
  with assms(3) have "present env (targets ps) s" by simp
  from updatePackagesVersion_ok [OF this] obtain s' where
    rb: "updatePackagesVersion env ps cur s = (Inr (), s')"
    and upd: "updated env (targets ps) cur s s'" by blast
  have "on_error env cur ps e s = (Inr (), s'\<lparr>trace := trace s' @ [LogThrown e]\<rparr>)"
    using assms(3) rb by (simp add: on_error_def bnd_apply emit_apply)
  then have "release env = \<lparr>final = s'\<lparr>trace := trace s' @ [LogThrown e]\<rparr>, status = 1\<rparr>"
    using assms(1,2) by (simp add: release_def)
  then show ?thesis
    using upd by (simp add: updated_def targets_def)
qed

lemma emitsD:
  "emits P m \<Longrightarrow> m s = (r, s') \<Longrightarrow> \<exists>evs. trace s' = trace s @ evs \<and> list_all P evs"
  unfolding emits_def by (metis snd_conv)

lemma emits_ret [emits_intros]: "emits P (ret x)"
  by (simp add: emits_def ret_def)

lemma emits_throw [emits_intros]: "emits P (throw e)"
  by (simp add: emits_def throw_def)

lemma emits_lift [emits_intros]: "emits P (lift r)"
  by (simp add: emits_def lift_def)

lemma emits_emit [emits_intros]: "P ev \<Longrightarrow> emits P (emit ev)"
  by (simp add: emits_def emit_def)

lemma emits_bnd [emits_intros]:
  assumes "emits P m" and "\<And>x. emits P (k x)"
  shows "emits P (bnd m k)"
  unfolding emits_def
proof
  fix s
  obtain r s1 where m: "m s = (r, s1)" by (cases "m s")
  from emitsD [OF assms(1) m] obtain evs1 where
    e1: "trace s1 = trace s @ evs1" "list_all P evs1" by blast
  show "\<exists>evs. trace (snd (bnd m k s)) = trace s @ evs \<and> list_all P evs"
  proof (cases r)
    case (Inl e)
    then show ?thesis using m e1 by (auto simp: bnd_apply)
  next
    case (Inr x)
    obtain r2 s2 where k: "k x s1 = (r2, s2)" by (cases "k x s1")
    from emitsD [OF assms(2) k] obtain evs2 where
      e2: "trace s2 = trace s1 @ evs2" "list_all P evs2" by blast
    have "trace (snd (bnd m k s)) = trace s @ (evs1 @ evs2)"
      using m Inr k e1 e2 by (simp add: bnd_apply)
    moreover have "list_all P (evs1 @ evs2)" using e1 e2 by simp
    ultimately show ?thesis by blast
  qed
qed

lemma emits_catch [emits_intros]:
  assumes "emits P m" and "\<And>e. emits P (h e)"
  shows "emits P (catch m h)"
  unfolding emits_def
proof
  fix s
  obtain r s1 where m: "m s = (r, s1)" by (cases "m s")
  from emitsD [OF assms(1) m] obtain evs1 where
    e1: "trace s1 = trace s @ evs1" "list_all P evs1" by blast
  show "\<exists>evs. trace (snd (catch m h s)) = trace s @ evs \<and> list_all P evs"
  proof (cases r)
    case (Inr x)
    then show ?thesis using m e1 by (auto simp: catch_apply)
  next
    case (Inl e)
    obtain r2 s2 where k: "h e s1 = (r2, s2)" by (cases "h e s1")
    from emitsD [OF assms(2) k] obtain evs2 where
      e2: "trace s2 = trace s1 @ evs2" "list_all P evs2" by blast
    have "trace (snd (catch m h s)) = trace s @ (evs1 @ evs2)"
      using m Inl k e1 e2 by (simp add: catch_apply)
    moreover have "list_all P (evs1 @ evs2)" using e1 e2 by simp
    ultimately show ?thesis by blast
  qed
qed

lemma emits_if [emits_intros]:
  "(c \<Longrightarrow> emits P a) \<Longrightarrow> (\<not> c \<Longrightarrow> emits P b) \<Longrightarrow> emits P (if c then a else b)"
  by simp

lemma emits_case_option [emits_intros]:
  "emits P a \<Longrightarrow> (\<And>x. emits P (b x)) \<Longrightarrow> emits P (case v of None \<Rightarrow> a | Some x \<Rightarrow> b x)"
  by (cases v) simp_all

lemma emits_case_prod [emits_intros]:
  "(\<And>x y. emits P (f x y)) \<Longrightarrow> emits P (case p of (x, y) \<Rightarrow> f x y)"
  by (cases p) simp

lemma emits_case_list [emits_intros]:
  "emits P a \<Longrightarrow> (\<And>x xs. emits P (b x xs)) \<Longrightarrow> emits P (case l of [] \<Rightarrow> a | x # xs \<Rightarrow> b x xs)"
  by (cases l) simp_all

lemma emits_Let [emits_intros]: "(\<And>x. emits P (f x)) \<Longrightarrow> emits P (Let v f)"
  by simp

lemma emits_for_each [emits_intros]: "(\<And>x. emits P (f x)) \<Longrightarrow> emits P (for_each xs f)"
  by (induction xs) (auto intro: emits_intros)

lemma emits_run [emits_intros]: "P (Exec cwd c) \<Longrightarrow> emits P (run env cwd c)"
  unfolding run_def by (intro emits_intros)

lemma emits_runIfNotDry [emits_intros]:
  "(dry env \<Longrightarrow> P (DryRun c)) \<Longrightarrow> (\<not> dry env \<Longrightarrow> P (Exec None c)) \<Longrightarrow>
   emits P (runIfNotDry env c)"
  unfolding runIfNotDry_def dryRun_def by (intro emits_intros)

lemma emits_step [emits_intros]: "P (Log m) \<Longrightarrow> emits P (step m)"
  unfolding step_def by (intro emits_intros)

lemma emits_prompt [emits_intros]: "P (Ask m) \<Longrightarrow> emits P (prompt m a)"
  unfolding prompt_def by (intro emits_intros)

lemma emits_updatePackageVersion [emits_intros]:
  "P (WriteManifest r v) \<Longrightarrow> emits P (updatePackageVersion env r v)"
  unfolding emits_def updatePackageVersion_def by (auto split: option.splits)

lemma emits_set_versionUpdated [emits_intros]: "emits P set_versionUpdated"
  by (simp add: emits_def set_versionUpdated_def)

lemma emits_checks: "emits harmless (checks env)"
  unfolding checks_def isMainBranch_def isInSyncWithRemote_def getRepoInfo_def
    getLatestCommitHash_def
  by (intro emits_intros) (simp_all add: harmless_def)

lemma emits_resolve_version: "emits harmless (resolve_version env cur)"
  unfolding resolve_version_def
  by (intro emits_intros) (simp_all add: harmless_def)

lemma emits_main_release_dry:
  assumes "dry env"
  shows "emits (\<lambda>ev. \<not> skipped_in_dry ev) (main_release env cur ps)"
  using assms
  unfolding main_release_def checks_def isMainBranch_def isInSyncWithRemote_def getRepoInfo_def
    getLatestCommitHash_def resolve_version_def validate_and_confirm_def release_steps_def
    updatePackagesVersion_def after_version_update_def isWorkspaceClean_def
    publishGitHubRelease_def publishPackages_def publishPackage_def
  by (intro emits_intros) (simp_all add: skipped_in_dry_def)

lemma emits_when:
  assumes "emits P m"
  shows "emits P (\<lambda>s. if c s then m s else (Inr (), s))"
  unfolding emits_def
proof
  fix s
  show "\<exists>evs. trace (snd (if c s then m s else (Inr (), s))) = trace s @ evs \<and> list_all P evs"
  proof (cases "c s")
    case True
    then show ?thesis using assms unfolding emits_def by simp
  next
    case False
    then show ?thesis by simp
  qed
qed

lemma emits_on_error:
  "emits (\<lambda>ev. \<not> skipped_in_dry ev) (on_error env cur ps e)"
  unfolding on_error_def
  by (intro emits_intros emits_when, unfold updatePackagesVersion_def, intro emits_intros)
     (simp_all add: skipped_in_dry_def)

lemma dry_run_safety:
  assumes "dry env"
  shows "list_all (\<lambda>ev. \<not> skipped_in_dry ev) (trace (final (release env)))"
proof (cases "load env")
  case (Inl e)
  then show ?thesis by (simp add: release_def start_def)
next
  case (Inr loaded)
  obtain cur ps where l: "loaded = (cur, ps)" by (cases loaded)
  obtain r s where m: "main_release env cur ps (start env) = (r, s)"
    by (cases "main_release env cur ps (start env)")
  from emitsD [OF emits_main_release_dry [OF assms] m]
  have t: "list_all (\<lambda>ev. \<not> skipped_in_dry ev) (trace s)" by (auto simp: start_def)
  show ?thesis
  proof (cases r)
    case (Inr u)
    then show ?thesis using \<open>load env = Inr loaded\<close> l m t by (simp add: release_def)
  next
    case (Inl e)
    obtain r2 s2 where h: "on_error env cur ps e s = (r2, s2)"
      by (cases "on_error env cur ps e s")
    from emitsD [OF emits_on_error h] t
    have "list_all (\<lambda>ev. \<not> skipped_in_dry ev) (trace s2)" by auto
    then show ?thesis using \<open>load env = Inr loaded\<close> l m Inl h by (simp add: release_def)
  qed
qed

lemma add_events_simps [simp]:
  "add_events (add_events s a) b = add_events s (a @ b)"
  "trace (add_events s a) = trace s @ a"
  "manifests (add_events s a) = manifests s"
  "versionUpdated (add_events s a) = versionUpdated s"
  by (simp_all add: add_events_def)

lemma emit_add: "emit ev s = (Inr (), add_events s [ev])"
  by (simp add: emit_def add_events_def)

lemma step_add: "step m s = (Inr (), add_events s [Log m])"
  by (simp add: step_def emit_add)

lemma prompt_add: "prompt m a s = (a, add_events s [Ask m])"
  by (simp add: prompt_def bnd_apply emit_add lift_apply)

lemma run_add: "run env cwd c s = (exec env cwd c, add_events s [Exec cwd c])"
  by (simp add: run_def bnd_apply emit_add lift_apply)

lemma runIfNotDry_dry: "dry env \<Longrightarrow> runIfNotDry env c s = (Inr (), add_events s [DryRun c])"
  by (simp add: runIfNotDry_def dryRun_def emit_add)

lemma load_packages_present:
  "load_packages env dir = Inr ps \<Longrightarrow> p \<in> set ps \<Longrightarrow> manifests0 env (Pkg p) \<noteq> None"
proof (induction dir arbitrary: ps)
  case Nil
  then show ?case by simp
next
  case (Cons entry dir)
  obtain q is_dir where e: "entry = (q, is_dir)" by (cases entry)
  show ?case
  proof (cases is_dir)
    case False
    then show ?thesis using Cons e by simp
  next
    case True
    then show ?thesis using Cons.prems Cons.IH e
      by (auto split: option.splits sum.splits if_splits)
  qed
qed

lemma load_present:
  assumes "load env = Inr (cur, ps)"
  shows "cur = (case manifests0 env Root of None \<Rightarrow> None | Some m \<Rightarrow> version_of m) \<and>
         (\<forall>r \<in> set (targets ps). manifests0 env r \<noteq> None)"
  using assms load_packages_present
  by (auto simp: load_def targets_def split: option.splits sum.splits)

lemma main_release_reaches:
  assumes l: "load env = Inr (cur, ps)"
    and c: "checks env (start env) = (Inr True, s1)"
    and r: "resolve_version env cur s1 = (Inr tv, s2)"
    and v: "semver_valid env tv" and a: "ask_confirm env = Inr True"
    and w: "list_all (\<lambda>r. manifest_write_error env r = None) (Root # map Pkg ps)"
  shows "\<exists>s3. main_release env cur ps (start env) = after_version_update env ps tv s3 \<and>
           trace s3 = trace s2 @ [Ask (''Releasing v'' @ tv @ ''. Confirm?''),
                                   Log (CHR ''\<newline>'' # ''Updating packages versions...'')] @
                       map (\<lambda>r. WriteManifest r (Some (JStr tv))) (Root # map Pkg ps) \<and>
           versionUpdated s3 \<and>
           (\<forall>r \<in> set (Root # map Pkg ps).
              \<exists>m. manifests s3 r = Some m \<and> version_of m = Some (JStr tv))"
proof -
  let ?q = "[Ask (''Releasing v'' @ tv @ ''. Confirm?''),
             Log (CHR ''\<newline>'' # ''Updating packages versions...'')]"
  have m2: "manifests s2 = manifests0 env"
    using frameD [OF frame_checks c] frameD [OF frame_resolve_version r] by (simp add: start_def)
  have "present env (targets ps) (add_events s2 ?q)"
    using load_present [OF l] w m2 by (auto simp: present_def targets_def list_all_iff)
  from updatePackagesVersion_ok [OF this, of "Some (JStr tv)"] obtain s' where
    u: "updatePackagesVersion env ps (Some (JStr tv)) (add_events s2 ?q) = (Inr (), s')"
    and upd: "updated env (targets ps) (Some (JStr tv)) (add_events s2 ?q) s'" by blast
  let ?s3 = "s'\<lparr>versionUpdated := True\<rparr>"
  have "main_release env cur ps (start env) = after_version_update env ps tv ?s3"
    using c r v a u
    by (simp add: main_release_def bnd_apply validate_and_confirm_def prompt_add
        release_steps_def step_add set_versionUpdated_def)
  moreover have "trace ?s3 = trace s2 @ ?q @ map (\<lambda>r. WriteManifest r (Some (JStr tv))) (Root # map Pkg ps)"
    using upd by (simp add: updated_def targets_def)
  moreover have "\<forall>r \<in> set (Root # map Pkg ps).
              \<exists>m. manifests ?s3 r = Some m \<and> version_of m = Some (JStr tv)"
    using upd by (simp add: updated_def targets_def)
  ultimately show ?thesis by (intro exI [of _ ?s3]) simp
qed

lemma after_version_update_rejected:
  assumes "exec env None ''conventional-changelog -p angular -i CHANGELOG.md -s'' = Inr out"
    and "ask_changelog env = Inr False"
  shows "after_version_update env ps tv s =
           (Inr (), add_events s
              [Log (CHR ''\<newline>'' # ''Generating changelog...''),
               Exec None ''conventional-changelog -p angular -i CHANGELOG.md -s'',
               Ask ''Changelog generated. Does it look good?''])"
  using assms
  by (simp add: after_version_update_def bnd_apply step_add run_add prompt_add ret_apply)

lemma getRepoInfo_state:
  "getRepoInfo env s = (fst (getRepoInfo env s0), add_events s [Exec None ''git remote get-url origin''])"
  by (cases "exec env None ''git remote get-url origin''")
     (auto simp: getRepoInfo_def bnd_apply run_add throw_apply ret_apply split: option.splits)

lemma publishPackage_ok:
  assumes "\<not> isl (exec env (Some (package_dir p)) (''pnpm publish --access publish '' @ join '' '' flags))"
  shows "publishPackage env p v flags s =
           (Inr (), add_events s
              [Log (''Publishing '' @ p @ ''...''),
               Exec (Some (package_dir p)) (''pnpm publish --access publish '' @ join '' '' flags),
               Log (''Successfully published '' @ p @ ''@'' @ v)])"
proof -
  obtain out where "exec env (Some (package_dir p))
      (''pnpm publish --access publish '' @ join '' '' flags) = Inr out"
    using assms by (cases "exec env (Some (package_dir p))
      (''pnpm publish --access publish '' @ join '' '' flags)") auto
  then show ?thesis
    by (simp add: publishPackage_def bnd_apply catch_apply step_add run_add emit_add)
qed

lemma publish_all_ok:
  assumes "list_all (\<lambda>p. \<not> isl (exec env (Some (package_dir p))
             (''pnpm publish --access publish '' @ join '' '' flags))) ps"
  shows "for_each ps (\<lambda>p. publishPackage env p v flags) s =
           (Inr (), add_events s (concat (map (\<lambda>p.
              [Log (''Publishing '' @ p @ ''...''),
               Exec (Some (package_dir p)) (''pnpm publish --access publish '' @ join '' '' flags),
               Log (''Successfully published '' @ p @ ''@'' @ v)]) ps)))"
  using assms
proof (induction ps arbitrary: s)
  case Nil
  then show ?case by (simp add: ret_apply add_events_def)
next
  case (Cons p ps)
  then show ?case by (simp add: bnd_apply publishPackage_ok)
qed

lemma publishGitHubRelease_dry:
  assumes "dry env" and "\<not> isl (fst (getRepoInfo env s0))"
    and "changelog_notes env v = Inr (Some notes)"
  shows "publishGitHubRelease env v s =
           (Inr (), add_events s [Exec None ''git remote get-url origin'',
              Log (CHR ''\<newline>'' # ''Dry run - skipping github release...'')])"
proof -
  obtain info where "fst (getRepoInfo env s0) = Inr info"
    using assms(2) by (cases "fst (getRepoInfo env s0)") auto
  then have "getRepoInfo env s = (Inr info, add_events s [Exec None ''git remote get-url origin''])"
    using getRepoInfo_state [of env s s0] by simp
  then show ?thesis using assms(1,3)
    by (simp add: publishGitHubRelease_def bnd_apply lift_apply step_add split: prod.splits)
qed

lemma after_version_update_dry:
  assumes d: "dry env"
    and cc: "\<not> isl (exec env None ''conventional-changelog -p angular -i CHANGELOG.md -s'')"
    and ok: "ask_changelog env = Inr True"
    and inst: "\<not> isl (exec env None ''pnpm install --prefer-offline'')"
    and diff: "exec env None ''git diff'' = Inr out"
    and repo: "\<not> isl (fst (getRepoInfo env s0))"
    and cn: "changelog_notes env tv = Inr (Some notes)"
    and build: "\<not> isl (exec env None ''pnpm build'')"
    and pub: "list_all (\<lambda>p. \<not> isl (exec env (Some (package_dir p))
                ''pnpm publish --access publish --dry-run --no-git-checks'')) ps"
  shows "after_version_update env ps tv s =
           (Inr (), add_events s (dry_run_events ps tv (trim out = [])))"
proof -
  obtain o1 where o1: "exec env None ''conventional-changelog -p angular -i CHANGELOG.md -s'' = Inr o1"
    using cc by (cases "exec env None ''conventional-changelog -p angular -i CHANGELOG.md -s''") auto
  obtain o2 where o2: "exec env None ''pnpm install --prefer-offline'' = Inr o2"
    using inst by (cases "exec env None ''pnpm install --prefer-offline''") auto
  obtain o3 where o3: "exec env None ''pnpm build'' = Inr o3"
    using build by (cases "exec env None ''pnpm build''") auto
  have flags: "''pnpm publish --access publish '' @ join '' '' [''--dry-run'', ''--no-git-checks'']
      = ''pnpm publish --access publish --dry-run --no-git-checks''" by simp
  have pub': "list_all (\<lambda>p. \<not> isl (exec env (Some (package_dir p))
             (''pnpm publish --access publish '' @ join '' '' [''--dry-run'', ''--no-git-checks'']))) ps"
    using pub by (simp only: flags)
  have p: "publishPackages env ps tv s' = (Inr (), add_events s' (concat (map (\<lambda>p.
              [Log (''Publishing '' @ p @ ''...''),
               Exec (Some (package_dir p)) ''pnpm publish --access publish --dry-run --no-git-checks'',
               Log (''Successfully published '' @ p @ ''@'' @ tv)]) ps)))" for s'
    using publish_all_ok [OF pub', of tv s'] d unfolding publishPackages_def flags by simp
  show ?thesis
    using d o1 ok o2 diff o3
    by (simp add: after_version_update_def bnd_apply step_add run_add prompt_add ret_apply
        isWorkspaceClean_def runIfNotDry_dry emit_add p dry_run_events_def
        publishGitHubRelease_dry [OF d repo cn])
qed

lemma publishGitHubRelease_no_section:
  assumes "changelog_notes env v = Inr None"
  shows "\<exists>e. publishGitHubRelease env v s =
               (Inl e, add_events s [Exec None ''git remote get-url origin''])"
proof (cases "fst (getRepoInfo env s)")
  case (Inl e)
  then show ?thesis using getRepoInfo_state [of env s s]
    by (simp add: publishGitHubRelease_def bnd_apply)
next
  case (Inr info)
  then show ?thesis using getRepoInfo_state [of env s s] assms
    by (simp add: publishGitHubRelease_def bnd_apply lift_apply throw_apply split: prod.splits)
qed

lemma pair_of_fst: "fst p = a \<Longrightarrow> p = (a, snd p)"
  by (cases p) simp

lemma run_ok:
  "\<not> isl (exec env cwd c) \<Longrightarrow>
   bnd (run env cwd c) k s = k (projr (exec env cwd c)) (add_events s [Exec cwd c])"
  by (cases "exec env cwd c") (simp_all add: bnd_apply run_add)


lemma runIfNotDry_ok:
  "\<not> dry env \<Longrightarrow> \<not> isl (exec env None c) \<Longrightarrow>
   bnd (runIfNotDry env c) k s = k () (add_events s [Exec None c])"
  by (cases "exec env None c") (simp_all add: runIfNotDry_def bnd_apply run_add ret_apply)

lemma step_bnd: "bnd (step m) k s = k () (add_events s [Log m])"
  by (simp add: bnd_apply step_add)


lemma publishGitHubRelease_not_iterable:
  assumes "\<not> isl (fst (getRepoInfo env s0))" and "changelog_notes env v = Inr None"
  shows "publishGitHubRelease env v s =
           (Inl (not_iterable ''(intermediate value).exec(...)''), add_events s [Exec None ''git remote get-url origin''])"
proof -
  obtain info where "fst (getRepoInfo env s0) = Inr info"
    using assms(1) by (cases "fst (getRepoInfo env s0)") auto
  then have "getRepoInfo env s = (Inr info, add_events s [Exec None ''git remote get-url origin''])"
    using getRepoInfo_state [of env s s0] by simp
  then show ?thesis using assms(2)
    by (simp add: publishGitHubRelease_def bnd_apply lift_apply throw_apply split: prod.splits)
qed

lemma emit_bnd: "bnd (emit ev) k s = k () (add_events s [ev])"
  by (simp add: bnd_apply emit_add)

lemma prompt_bnd:
  "bnd (prompt m (Inr x)) k s = k x (add_events s [Ask m])"
  by (simp add: bnd_apply prompt_add)

lemma bnd_assoc: "bnd (bnd m f) k = bnd m (\<lambda>x. bnd (f x) k)"
  by (rule ext) (simp add: bnd_def split: prod.splits sum.splits)

lemma ret_bnd: "bnd (ret x) k = k x"
  by (rule ext) (simp add: bnd_def ret_def)

lemma bnd_if: "bnd (if c then a else b) k = (if c then bnd a k else bnd b k)"
  by simp

lemma bnd_thrown: "m s = (Inl e, s') \<Longrightarrow> bnd m k s = (Inl e, s')"
  by (simp add: bnd_apply)

lemma after_version_update_no_section:
  assumes nd: "\<not> dry env" and ok: "\<And>c. \<not> isl (exec env None c)"
    and ch: "ask_changelog env = Inr True"
    and dirty: "trim (projr (exec env None ''git diff'')) \<noteq> []"
    and repo: "\<not> isl (fst (getRepoInfo env s0))"
    and cn: "changelog_notes env tv = Inr None"
  shows "after_version_update env ps tv s =
           (Inl (not_iterable ''(intermediate value).exec(...)''), add_events s
             [Log (CHR ''\<newline>'' # ''Generating changelog...''),
              Exec None ''conventional-changelog -p angular -i CHANGELOG.md -s'',
              Ask ''Changelog generated. Does it look good?'',
              Log (CHR ''\<newline>'' # ''Updating lockfile...''),
              Exec None ''pnpm install --prefer-offline'',
              Exec None ''git diff'',
              Log (CHR ''\<newline>'' # ''Committing changes...''),
              Exec None ''git add -A'',
              Exec None (''git commit -m '' @ [CHR 0x22] @ ''chore(release): release v'' @ tv @
                         [CHR 0x22]),
              Log (CHR ''\<newline>'' # ''Pushing to github...''),
              Exec None (''git tag v'' @ tv),
              Exec None (''git push origin refs/tags/v'' @ tv),
              Exec None ''git push'',
              Log (CHR ''\<newline>'' # ''Publishing github release...''),
              Exec None ''git remote get-url origin''])"
proof -
  have p: "bnd (publishGitHubRelease env tv) k s' =
             (Inl (not_iterable ''(intermediate value).exec(...)''), add_events s' [Exec None ''git remote get-url origin''])" for k s'
    by (rule bnd_thrown) (rule publishGitHubRelease_not_iterable [OF repo cn])
  show ?thesis
    using nd ch dirty
    by (simp add: after_version_update_def step_bnd run_ok [OF ok] runIfNotDry_ok [OF nd ok]
        isWorkspaceClean_def bnd_assoc ret_bnd prompt_bnd p)
qed

lemma demo_exec_ok: "\<not> isl (demo_exec cwd c)"
  by (simp add: demo_exec_def)

lemma demo_resolve:
  "version_arg env = Some ''2.0.0'' \<Longrightarrow> resolve_version env cur s = (Inr ''2.0.0'', s)"
  by (simp add: resolve_version_def ret_apply)

section \<open>Facts about the substitutions of the vue transform\<close>






























section \<open>The aggregate index files\<close>

text \<open>
  C9. In every run of the script, whatever the target is: an \<^verbatim>\<open>index.d.ts\<close> that a build
  writes (line 105) has the module-style (esm) export syntax, one
  \<^verbatim>\<open>export { default as N } from './N'\<close> line per icon, for the esm and for the cjs format
  alike. When the run ends with nothing caught and no rejection unhandled, both formats
  have their \<^verbatim>\<open>index.js\<close>, in the syntax of the format, and their \<^verbatim>\<open>index.d.ts\<close>; for the cjs
  format the \<^verbatim>\<open>index.js\<close> has \<^verbatim>\<open>module.exports.N = require('./N')\<close> lines.
\<close>

theorem index_dts_is_esm:
  assumes "getIcons env = Inr icons"
  shows "(\<forall>w \<in> set (all_writes (main env arg)). \<forall>fmt.
            w_awaited w \<and>
            w_path w = output_dir (case arg of None \<Rightarrow> ''undefined'' | Some t \<Rightarrow> t) fmt @ ''/index.d.ts''
            \<longrightarrow> w_data w = Str (join [CHR ''\<newline>'']
                   (map (\<lambda>i. ''export { default as '' @ componentName i @ '' } from '' @
                              [CHR 0x27] @ ''./'' @ componentName i @ [CHR 0x27]) icons))) \<and>
         (logged (main env arg) = [] \<and> unhandled (main env arg) = [] \<longrightarrow>
            (\<forall>fmt.
               \<lparr>w_path = output_dir (case arg of None \<Rightarrow> ''undefined'' | Some t \<Rightarrow> t) fmt @ ''/index.js'',
                 w_data = Str (exportAll icons fmt), w_awaited = True\<rparr>
                 \<in> set (all_writes (main env arg)) \<and>
               \<lparr>w_path = output_dir (case arg of None \<Rightarrow> ''undefined'' | Some t \<Rightarrow> t) fmt @ ''/index.d.ts'',
                 w_data = Str (join [CHR ''\<newline>'']
                   (map (\<lambda>i. ''export { default as '' @ componentName i @ '' } from '' @
                              [CHR 0x27] @ ''./'' @ componentName i @ [CHR 0x27]) icons)),
                 w_awaited = True\<rparr>
                 \<in> set (all_writes (main env arg)))) \<and>
         exportAll icons Cjs = join [CHR ''\<newline>'']
             (map (\<lambda>i. ''module.exports.'' @ componentName i @ '' = require('' @
                        [CHR 0x27] @ ''./'' @ componentName i @ [CHR 0x27] @ '')'') icons)"
proof -
  let ?t = "case arg of None \<Rightarrow> ''undefined'' | Some t \<Rightarrow> t"
  let ?esm = "join [CHR ''\<newline>'']
                   (map (\<lambda>i. ''export { default as '' @ componentName i @ '' } from '' @
                              [CHR 0x27] @ ''./'' @ componentName i @ [CHR 0x27]) icons)"
  have esm: "exportAll icons Esm = ?esm" by (simp add: exportAll_def)
  have sub: "set (all_writes (main env arg)) \<subseteq>
               set (writes (build env ?t Esm)) \<union> set (writes (build env ?t Cjs))"
    by (auto simp: main_def Let_def)
  have one: "w_data w = Str ?esm"
    if w: "w \<in> set (all_writes (main env arg))" and a: "w_awaited w"
      and p: "w_path w = output_dir ?t fmt @ ''/index.d.ts''" for w fmt
  proof -
    from w sub obtain f where "w \<in> set (writes (build env ?t f))" by auto
    from build_awaited [OF assms this a] p show ?thesis
      by (auto simp: esm)
  qed
  have two: "\<lparr>w_path = output_dir ?t fmt @ ''/index.js'',
                 w_data = Str (exportAll icons fmt), w_awaited = True\<rparr>
                 \<in> set (all_writes (main env arg)) \<and>
             \<lparr>w_path = output_dir ?t fmt @ ''/index.d.ts'', w_data = Str ?esm, w_awaited = True\<rparr>
                 \<in> set (all_writes (main env arg))"
    if l: "logged (main env arg) = []" and u: "unhandled (main env arg) = []" for fmt
  proof -
    have nolost: "lost (build env ?t Esm) @ lost (build env ?t Cjs) = []"
      using u by (auto simp: main_def Let_def split: if_splits)
    then have all: "all_writes (main env arg) = writes (build env ?t Esm) @ writes (build env ?t Cjs)"
      by (simp add: main_def Let_def)
    have rej: "rejected (build env ?t Esm) = None" "rejected (build env ?t Cjs) = None"
      using l nolost by (auto simp: main_def Let_def split: option.splits)
    have "rejected (build env ?t fmt) = None" "lost (build env ?t fmt) = []"
      using rej nolost by (cases fmt; simp)+
    from build_done [OF assms this] obtain started where
      "writes (build env ?t fmt) = started @
           [\<lparr>w_path = output_dir ?t fmt @ ''/index.js'',
              w_data = Str (exportAll icons fmt), w_awaited = True\<rparr>,
            \<lparr>w_path = output_dir ?t fmt @ ''/index.d.ts'',
              w_data = Str (exportAll icons Esm), w_awaited = True\<rparr>]" by blast
    then show ?thesis using all by (cases fmt) (auto simp: esm)
  qed
  have three: "exportAll icons Cjs = join [CHR ''\<newline>'']
             (map (\<lambda>i. ''module.exports.'' @ componentName i @ '' = require('' @
                        [CHR 0x27] @ ''./'' @ componentName i @ [CHR 0x27] @ '')'') icons)"
    by (simp add: exportAll_def)
  show ?thesis using one two three by blast
qed

theorem index_dts_is_esm_witness:
  "getIcons two_icons_env =
     Inr [\<lparr>svg = demo_svg, componentName = ''GitHub''\<rparr>, \<lparr>svg = demo_svg, componentName = ''Vue''\<rparr>] \<and>
   \<lparr>w_path = ''./packages/vue/cjs/index.js'',
     w_data = Str (''module.exports.GitHub = require('' @ [CHR 0x27] @ ''./GitHub'' @ [CHR 0x27] @ '')'' @
                   [CHR ''\<newline>''] @
                   ''module.exports.Vue = require('' @ [CHR 0x27] @ ''./Vue'' @ [CHR 0x27] @ '')''),
     w_awaited = True\<rparr> \<in> set (all_writes (main two_icons_env (Some ''vue''))) \<and>
   \<lparr>w_path = ''./packages/vue/cjs/index.d.ts'',
     w_data = Str (''export { default as GitHub } from '' @ [CHR 0x27] @ ''./GitHub'' @ [CHR 0x27] @
                   [CHR ''\<newline>''] @
                   ''export { default as Vue } from '' @ [CHR 0x27] @ ''./Vue'' @ [CHR 0x27]),
     w_awaited = True\<rparr> \<in> set (all_writes (main two_icons_env (Some ''vue'')))"
proof -
  let ?icons = "[\<lparr>svg = demo_svg, componentName = ''GitHub''\<rparr>, \<lparr>svg = demo_svg, componentName = ''Vue''\<rparr>]"
  have h1: "getIcons two_icons_env = Inr ?icons"
    by code_simp
  have h2: "logged (main two_icons_env (Some ''vue'')) = []" by code_simp
  have h3: "unhandled (main two_icons_env (Some ''vue'')) = []" by code_simp
  from index_dts_is_esm [OF h1, of "Some ''vue''"] h2 h3
  have "\<forall>fmt.
        \<lparr>w_path = output_dir ''vue'' fmt @ ''/index.js'',
          w_data = Str (exportAll ?icons fmt), w_awaited = True\<rparr>
          \<in> set (all_writes (main two_icons_env (Some ''vue''))) \<and>
        \<lparr>w_path = output_dir ''vue'' fmt @ ''/index.d.ts'',
          w_data = Str (join [CHR ''\<newline>'']
                   (map (\<lambda>i. ''export { default as '' @ componentName i @ '' } from '' @
                              [CHR 0x27] @ ''./'' @ componentName i @ [CHR 0x27]) ?icons)),
          w_awaited = True\<rparr>
          \<in> set (all_writes (main two_icons_env (Some ''vue'')))"
    by simp
  from this [THEN spec, of Cjs] show ?thesis using h1 by (simp add: exportAll_def output_dir_def)
qed

section \<open>Component names\<close>

lemma prefix_drop_nil: "(prefix l s \<and> drop (length l) s = []) = (s = l)"
  by (auto simp: prefix_def)

lemma rmatch_svg_ext: "rmatch rx_svg_ext [] s = (if s = ''.svg'' then Some ([], []) else None)"
  using prefix_drop_nil [of "''.svg''" s] by (auto simp: rx_svg_ext_def)

lemma rsearch_svg_ext: "rsearch rx_svg_ext (stem @ ''.svg'') = Some (stem, [], [])"
proof (induction stem)
  case Nil
  then show ?case by (simp add: rmatch_svg_ext)
next
  case (Cons c stem)
  have "length (c # stem @ ''.svg'') \<noteq> length ''.svg''" by simp
  then have "c # stem @ ''.svg'' \<noteq> ''.svg''" by metis
  then show ?case using Cons.IH by (simp add: rmatch_svg_ext)
qed

lemma rsearch_no_svg_ext: "\<not> suffix ''.svg'' fname \<Longrightarrow> rsearch rx_svg_ext fname = None"
proof (induction fname)
  case Nil
  then show ?case by (simp add: rmatch_svg_ext)
next
  case (Cons c cs)
  have "\<not> suffix ''.svg'' cs" using Cons.prems by (auto simp: suffix_Cons)
  then have rec: "rsearch rx_svg_ext cs = None" by (rule Cons.IH)
  have "c # cs \<noteq> ''.svg''" using Cons.prems by auto
  then show ?case using rec by (simp add: rmatch_svg_ext)
qed

lemma component_name_of_eq:
  "component_name_of fname =
     camelcase_pascal (if suffix ''.svg'' fname then take (length fname - 4) fname else fname)"
proof (cases "suffix ''.svg'' fname")
  case True
  then obtain stem where f: "fname = stem @ ''.svg''" by (auto simp: suffix_def)
  show ?thesis using True by (simp add: f component_name_of_def replace_first_def rsearch_svg_ext)
next
  case False
  then show ?thesis by (simp add: component_name_of_def replace_first_def rsearch_no_svg_ext)
qed

lemma strip_extension_svg: "strip_extension (stem @ ''.svg'') = stem"
  by (simp add: strip_extension_def)

lemma map_Inr_names:
  "map g xs = map Inr ys \<Longrightarrow> (\<And>x y. g x = Inr y \<Longrightarrow> p y = q x) \<Longrightarrow> map p ys = map q xs"
proof (induction xs arbitrary: ys)
  case Nil
  then show ?case by simp
next
  case (Cons x xs)
  then show ?case by (cases ys) auto
qed

lemma getIcons_names:
  assumes "assets_dir env = Inr files" and "getIcons env = Inr icons"
  shows "map componentName icons = map component_name_of files"
proof -
  let ?g = "\<lambda>file. case asset_file env (''././assets/'' @ file) of
              Inl e \<Rightarrow> Inl e
            | Inr text \<Rightarrow> Inr \<lparr>svg = text, componentName = component_name_of file\<rparr>"
  have "all_ok (map ?g files) = Inr icons"
    using assms by (simp add: getIcons_def)
  then have "map ?g files = map Inr icons" by (rule all_ok_Inr)
  then show ?thesis
    by (rule map_Inr_names) (auto split: sum.splits)
qed

text \<open>
  C2, as amended. The Icon Loader derives every component name from the file name alone
  (the same file name gives the same name): a trailing \<^verbatim>\<open>.svg\<close>, and only that, is removed,
  and the remainder is converted to PascalCase. For a file name that ends in \<^verbatim>\<open>.svg\<close> this
  is the derivation of the spec; a file name with another extension keeps it, and its dot
  separates two words.
\<close>

theorem icon_loader_component_names:
  assumes "assets_dir env = Inr files" and "getIcons env = Inr icons"
  shows "map componentName icons =
           map (\<lambda>f. camelcase_pascal (if suffix ''.svg'' f then take (length f - 4) f else f)) files \<and>
         (\<forall>i < length files. suffix ''.svg'' (files ! i) \<longrightarrow>
            componentName (icons ! i) = spec_component_name (files ! i))"
proof -
  have names: "map componentName icons = map component_name_of files"
    using assms by (rule getIcons_names)
  have len: "length icons = length files"
    using arg_cong [OF names, of length] by simp
  have "componentName (icons ! i) = spec_component_name (files ! i)"
    if lt: "i < length files" and sf: "suffix ''.svg'' (files ! i)" for i
  proof -
    have "componentName (icons ! i) = component_name_of (files ! i)"
      using arg_cong [OF names, of "\<lambda>xs. xs ! i"] lt len by simp
    moreover obtain stem where "files ! i = stem @ ''.svg''"
      using sf by (auto simp: suffix_def)
    ultimately show ?thesis
      using sf by (simp add: component_name_of_eq spec_component_name_def strip_extension_svg)
  qed
  then show ?thesis
    using names by (simp add: component_name_of_eq [abs_def])
qed

theorem icon_loader_component_names_witness:
  "assets_dir demo_env = Inr [''git-hub.svg''] \<and>
   getIcons demo_env = Inr [\<lparr>svg = demo_svg, componentName = ''GitHub''\<rparr>] \<and>
   spec_component_name ''git-hub.svg'' = ''GitHub''"
proof -
  have h1: "assets_dir demo_env = Inr [''git-hub.svg'']" by (simp add: demo_env_def)
  have h2: "getIcons demo_env = Inr [\<lparr>svg = demo_svg, componentName = ''GitHub''\<rparr>]"
    by code_simp
  have h3: "spec_component_name ''git-hub.svg'' = ''GitHub''" by code_simp
  show ?thesis
    using icon_loader_component_names [OF h1 h2] h1 h2 h3 by simp
qed

text \<open>
  C2 as stated fails for a file of \<^verbatim>\<open>./assets\<close> that is not named \<^verbatim>\<open>*.svg\<close>: its extension
  is not stripped.
\<close>

theorem component_name_counterexample:
  "component_name_of ''logo.png'' = ''LogoPng'' \<and> spec_component_name ''logo.png'' = ''Logo''"
  by code_simp

section \<open>The vue transform's rewrite of width and height\<close>




section \<open>Failures of the build\<close>

text \<open>
  C6 at a failing input. One icon, the vue target, every transform succeeds, and writing
  \<^verbatim>\<open>./packages/vue/esm/GitHub.js\<close> fails. Nothing awaits that write, so the \<^verbatim>\<open>catch\<close> of
  \<^verbatim>\<open>main\<close> logs nothing; the rejection is unhandled and the process ends with code 1.
\<close>

theorem floating_write_not_caught:
  "logged (main failing_write_env (Some ''vue'')) = [] \<and>
   unhandled (main failing_write_env (Some ''vue'')) = [SystemError ''EACCES''] \<and>
   exit_code (main failing_write_env (Some ''vue'')) = 1"
  by code_simp

section \<open>The react transform's rewrite for the cjs format\<close>




section \<open>Rollback\<close>



section \<open>A rejected changelog\<close>

text \<open>
  C8. In every run that gets to the changelog (the checks pass, the version is valid, the
  release is confirmed, the manifests are written, the changelog command succeeds) and
  in which the changelog confirmation is answered with no, the question is the last
  thing that happens: nothing is rolled back, every manifest keeps the target version,
  and the process ends with status 0.
\<close>

theorem changelog_rejected:
  assumes "load env = Inr (cur, ps)"
    and "checks env (start env) = (Inr True, s1)"
    and "resolve_version env cur s1 = (Inr tv, s2)"
    and "semver_valid env tv" and "ask_confirm env = Inr True"
    and "list_all (\<lambda>r. manifest_write_error env r = None) (Root # map Pkg ps)"
    and "exec env None ''conventional-changelog -p angular -i CHANGELOG.md -s'' = Inr out"
    and "ask_changelog env = Inr False"
  shows "status (release env) = 0 \<and>
         trace (final (release env)) =
           trace s2 @ [Ask (''Releasing v'' @ tv @ ''. Confirm?''),
                       Log (CHR ''\<newline>'' # ''Updating packages versions...'')] @
           map (\<lambda>r. WriteManifest r (Some (JStr tv))) (Root # map Pkg ps) @
           [Log (CHR ''\<newline>'' # ''Generating changelog...''),
            Exec None ''conventional-changelog -p angular -i CHANGELOG.md -s'',
            Ask ''Changelog generated. Does it look good?''] \<and>
         (\<forall>r \<in> set (Root # map Pkg ps).
            \<exists>m. manifests (final (release env)) r = Some m \<and> version_of m = Some (JStr tv))"
proof -
  from main_release_reaches [OF assms(1-6)] obtain s3 where
    m: "main_release env cur ps (start env) = after_version_update env ps tv s3"
    and t: "trace s3 = trace s2 @ [Ask (''Releasing v'' @ tv @ ''. Confirm?''),
                                   Log (CHR ''\<newline>'' # ''Updating packages versions...'')] @
                       map (\<lambda>r. WriteManifest r (Some (JStr tv))) (Root # map Pkg ps)"
    and f: "\<forall>r \<in> set (Root # map Pkg ps).
              \<exists>m. manifests s3 r = Some m \<and> version_of m = Some (JStr tv)"
    by blast
  have "release env = \<lparr>final = add_events s3
              [Log (CHR ''\<newline>'' # ''Generating changelog...''),
               Exec None ''conventional-changelog -p angular -i CHANGELOG.md -s'',
               Ask ''Changelog generated. Does it look good?''], status = 0\<rparr>"
    using assms(1) m after_version_update_rejected [OF assms(7,8)]
    by (simp add: release_def)
  then show ?thesis using t f by simp
qed

theorem changelog_rejected_witness:
  "status (release rejecting_env) = 0 \<and>
   trace (final (release rejecting_env)) =
     demo_checks @
     [Ask ''Releasing v2.0.0. Confirm?'',
      Log (CHR ''\<newline>'' # ''Updating packages versions...''),
      WriteManifest Root (Some (JStr ''2.0.0'')),
      WriteManifest (Pkg ''react'') (Some (JStr ''2.0.0'')),
      WriteManifest (Pkg ''vue'') (Some (JStr ''2.0.0'')),
      Log (CHR ''\<newline>'' # ''Generating changelog...''),
      Exec None ''conventional-changelog -p angular -i CHANGELOG.md -s'',
      Ask ''Changelog generated. Does it look good?''] \<and>
   (\<exists>m. manifests (final (release rejecting_env)) Root = Some m \<and>
        version_of m = Some (JStr ''2.0.0'')) \<and>
   (\<exists>m. manifests (final (release rejecting_env)) (Pkg ''react'') = Some m \<and>
        version_of m = Some (JStr ''2.0.0'')) \<and>
   (\<exists>m. manifests (final (release rejecting_env)) (Pkg ''vue'') = Some m \<and>
        version_of m = Some (JStr ''2.0.0''))"
proof -
  let ?env = rejecting_env
  let ?cur = "Some (JStr ''1.9.0'')"
  let ?ps = "[''react'', ''vue'']"
  let ?s1 = "snd (checks ?env (start ?env))"
  have h1: "load ?env = Inr (?cur, ?ps)" by code_simp
  have "fst (checks ?env (start ?env)) = Inr True" by code_simp
  then have c: "checks ?env (start ?env) = (Inr True, ?s1)" by (rule pair_of_fst)
  have t: "trace ?s1 = demo_checks" by code_simp
  have r: "resolve_version ?env ?cur ?s1 = (Inr ''2.0.0'', ?s1)"
    by (rule demo_resolve) (simp add: rejecting_env_def release_demo_def)
  have v: "semver_valid ?env ''2.0.0''" and a: "ask_confirm ?env = Inr True"
    and w: "list_all (\<lambda>r. manifest_write_error ?env r = None) (Root # map Pkg ?ps)"
    and x: "exec ?env None ''conventional-changelog -p angular -i CHANGELOG.md -s'' = Inr []"
    and n: "ask_changelog ?env = Inr False"
    by (simp_all add: rejecting_env_def release_demo_def demo_exec_def)
  from changelog_rejected [OF h1 c r v a w x n] t show ?thesis by simp
qed

section \<open>Dry runs\<close>

text \<open>
  C10. In a dry run no \<^verbatim>\<open>git add\<close>, \<^verbatim>\<open>git commit\<close>, \<^verbatim>\<open>git tag\<close> or \<^verbatim>\<open>git push\<close> is
  executed and no release is opened or created, whatever else happens. And a dry run in
  which everything succeeds does just what \<open>dry_run_events\<close> lists: it rewrites the
  manifests, executes the changelog command, \<^verbatim>\<open>pnpm install\<close> and \<^verbatim>\<open>pnpm build\<close> for real,
  logs the git commands and the skipped release in their place, and publishes every
  package with \<^verbatim>\<open>--dry-run --no-git-checks\<close>.
\<close>

theorem dry_run_replaces_git_and_release_only:
  assumes "dry env"
  shows "list_all (\<lambda>ev. \<not> skipped_in_dry ev) (trace (final (release env))) \<and>
         (load env = Inr (cur, ps) \<and>
          checks env (start env) = (Inr True, s1) \<and>
          resolve_version env cur s1 = (Inr tv, s2) \<and>
          semver_valid env tv \<and> ask_confirm env = Inr True \<and>
          list_all (\<lambda>r. manifest_write_error env r = None) (Root # map Pkg ps) \<and>
          \<not> isl (exec env None ''conventional-changelog -p angular -i CHANGELOG.md -s'') \<and>
          ask_changelog env = Inr True \<and>
          \<not> isl (exec env None ''pnpm install --prefer-offline'') \<and>
          exec env None ''git diff'' = Inr out \<and>
          \<not> isl (fst (getRepoInfo env (start env))) \<and>
          changelog_notes env tv = Inr (Some notes) \<and>
          \<not> isl (exec env None ''pnpm build'') \<and>
          list_all (\<lambda>p. \<not> isl (exec env (Some (package_dir p))
                ''pnpm publish --access publish --dry-run --no-git-checks'')) ps
          \<longrightarrow>
          status (release env) = 0 \<and>
          trace (final (release env)) =
            trace s2 @ [Ask (''Releasing v'' @ tv @ ''. Confirm?''),
                        Log (CHR ''\<newline>'' # ''Updating packages versions...'')] @
            map (\<lambda>r. WriteManifest r (Some (JStr tv))) (Root # map Pkg ps) @
            dry_run_events ps tv (trim out = []))"
proof (intro conjI impI)
  show "list_all (\<lambda>ev. \<not> skipped_in_dry ev) (trace (final (release env)))"
    using assms by (rule dry_run_safety)
next
  assume h: "load env = Inr (cur, ps) \<and>
          checks env (start env) = (Inr True, s1) \<and>
          resolve_version env cur s1 = (Inr tv, s2) \<and>
          semver_valid env tv \<and> ask_confirm env = Inr True \<and>
          list_all (\<lambda>r. manifest_write_error env r = None) (Root # map Pkg ps) \<and>
          \<not> isl (exec env None ''conventional-changelog -p angular -i CHANGELOG.md -s'') \<and>
          ask_changelog env = Inr True \<and>
          \<not> isl (exec env None ''pnpm install --prefer-offline'') \<and>
          exec env None ''git diff'' = Inr out \<and>
          \<not> isl (fst (getRepoInfo env (start env))) \<and>
          changelog_notes env tv = Inr (Some notes) \<and>
          \<not> isl (exec env None ''pnpm build'') \<and>
          list_all (\<lambda>p. \<not> isl (exec env (Some (package_dir p))
                ''pnpm publish --access publish --dry-run --no-git-checks'')) ps"
  then have l: "load env = Inr (cur, ps)" by blast
  from h main_release_reaches [of env cur ps s1 tv s2] obtain s3 where
    m: "main_release env cur ps (start env) = after_version_update env ps tv s3"
    and t: "trace s3 = trace s2 @ [Ask (''Releasing v'' @ tv @ ''. Confirm?''),
                                   Log (CHR ''\<newline>'' # ''Updating packages versions...'')] @
                       map (\<lambda>r. WriteManifest r (Some (JStr tv))) (Root # map Pkg ps)"
    by blast
  have "after_version_update env ps tv s3 =
           (Inr (), add_events s3 (dry_run_events ps tv (trim out = [])))"
    using assms h by (intro after_version_update_dry) blast+
  then have r: "release env = \<lparr>final = add_events s3 (dry_run_events ps tv (trim out = [])),
       status = 0\<rparr>"
    using l m by (simp add: release_def)
  show "status (release env) = 0" using r by simp
  show "trace (final (release env)) =
            trace s2 @ [Ask (''Releasing v'' @ tv @ ''. Confirm?''),
                        Log (CHR ''\<newline>'' # ''Updating packages versions...'')] @
            map (\<lambda>r. WriteManifest r (Some (JStr tv))) (Root # map Pkg ps) @
            dry_run_events ps tv (trim out = [])"
    using r t by simp
qed

theorem dry_run_replaces_git_and_release_only_witness:
  "list_all (\<lambda>ev. \<not> skipped_in_dry ev) (trace (final (release dry_env))) \<and>
   status (release dry_env) = 0 \<and>
   trace (final (release dry_env)) =
     demo_checks @
     [Ask ''Releasing v2.0.0. Confirm?'',
      Log (CHR ''\<newline>'' # ''Updating packages versions...''),
      WriteManifest Root (Some (JStr ''2.0.0'')),
      WriteManifest (Pkg ''react'') (Some (JStr ''2.0.0'')),
      WriteManifest (Pkg ''vue'') (Some (JStr ''2.0.0'')),
      Log (CHR ''\<newline>'' # ''Generating changelog...''),
      Exec None ''conventional-changelog -p angular -i CHANGELOG.md -s'',
      Ask ''Changelog generated. Does it look good?'',
      Log (CHR ''\<newline>'' # ''Updating lockfile...''),
      Exec None ''pnpm install --prefer-offline'',
      Exec None ''git diff'',
      Log (CHR ''\<newline>'' # ''Committing changes...''),
      DryRun ''git add -A'',
      DryRun (''git commit -m '' @ [CHR 0x22] @ ''chore(release): release v2.0.0'' @ [CHR 0x22]),
      Log (CHR ''\<newline>'' # ''Pushing to github...''),
      DryRun ''git tag v2.0.0'',
      DryRun ''git push origin refs/tags/v2.0.0'',
      DryRun ''git push'',
      Log (CHR ''\<newline>'' # ''Publishing github release...''),
      Exec None ''git remote get-url origin'',
      Log (CHR ''\<newline>'' # ''Dry run - skipping github release...''),
      Log (CHR ''\<newline>'' # ''Building all packages...''),
      Exec None ''pnpm build'',
      Log (CHR ''\<newline>'' # ''Publishing packages...''),
      Log ''Publishing react...'',
      Exec (Some ''../packages/react'') ''pnpm publish --access publish --dry-run --no-git-checks'',
      Log ''Successfully published react@2.0.0'',
      Log ''Publishing vue...'',
      Exec (Some ''../packages/vue'') ''pnpm publish --access publish --dry-run --no-git-checks'',
      Log ''Successfully published vue@2.0.0'',
      Log (CHR ''\<newline>'' # ''Dry run finished - run git diff to see package changes.''),
      Log []]"
proof -
  let ?env = dry_env
  let ?cur = "Some (JStr ''1.9.0'')"
  let ?ps = "[''react'', ''vue'']"
  let ?s1 = "snd (checks ?env (start ?env))"
  let ?out = "''diff --git a/package.json b/package.json''"
  have d: "dry ?env" by (simp add: dry_env_def)
  have h1: "load ?env = Inr (?cur, ?ps)" by code_simp
  have "fst (checks ?env (start ?env)) = Inr True" by code_simp
  then have c: "checks ?env (start ?env) = (Inr True, ?s1)" by (rule pair_of_fst)
  have t: "trace ?s1 = demo_checks" by code_simp
  have r: "resolve_version ?env ?cur ?s1 = (Inr ''2.0.0'', ?s1)"
    by (rule demo_resolve) (simp add: dry_env_def release_demo_def)
  have g: "\<not> isl (fst (getRepoInfo ?env (start ?env)))" by code_simp
  have tr: "trim ?out \<noteq> []" by code_simp
  have e: "exec ?env = demo_exec" by (simp add: dry_env_def release_demo_def)
  have rest: "semver_valid ?env ''2.0.0'' \<and> ask_confirm ?env = Inr True \<and>
      list_all (\<lambda>r. manifest_write_error ?env r = None) (Root # map Pkg ?ps) \<and>
      \<not> isl (exec ?env None ''conventional-changelog -p angular -i CHANGELOG.md -s'') \<and>
      ask_changelog ?env = Inr True \<and>
      \<not> isl (exec ?env None ''pnpm install --prefer-offline'') \<and>
      exec ?env None ''git diff'' = Inr ?out \<and>
      \<not> isl (fst (getRepoInfo ?env (start ?env))) \<and>
      changelog_notes ?env ''2.0.0'' = Inr (Some ''* notes'') \<and>
      \<not> isl (exec ?env None ''pnpm build'') \<and>
      list_all (\<lambda>p. \<not> isl (exec ?env (Some (package_dir p))
            ''pnpm publish --access publish --dry-run --no-git-checks'')) ?ps"
    using g by (simp add: e demo_exec_ok) (simp add: dry_env_def release_demo_def demo_exec_def)
  note th = dry_run_replaces_git_and_release_only
    [OF d, of ?cur ?ps ?s1 "''2.0.0''" ?s1 ?out "''* notes''"]
  from th have p1: "list_all (\<lambda>ev. \<not> skipped_in_dry ev) (trace (final (release ?env)))"
    by (rule conjunct1)
  from th h1 c r rest
  have p2: "status (release ?env) = 0 \<and>
          trace (final (release ?env)) =
            trace ?s1 @ [Ask (''Releasing v'' @ ''2.0.0'' @ ''. Confirm?''),
                        Log (CHR ''\<newline>'' # ''Updating packages versions...'')] @
            map (\<lambda>r. WriteManifest r (Some (JStr ''2.0.0''))) (Root # map Pkg ?ps) @
            dry_run_events ?ps ''2.0.0'' (trim ?out = [])"
    by blast
  show ?thesis
  proof (intro conjI)
    show "list_all (\<lambda>ev. \<not> skipped_in_dry ev) (trace (final (release ?env)))" by (rule p1)
    show "status (release ?env) = 0" using p2 by simp
    show "trace (final (release ?env)) = demo_checks @
     [Ask ''Releasing v2.0.0. Confirm?'',
      Log (CHR ''\<newline>'' # ''Updating packages versions...''),
      WriteManifest Root (Some (JStr ''2.0.0'')),
      WriteManifest (Pkg ''react'') (Some (JStr ''2.0.0'')),
      WriteManifest (Pkg ''vue'') (Some (JStr ''2.0.0'')),
      Log (CHR ''\<newline>'' # ''Generating changelog...''),
      Exec None ''conventional-changelog -p angular -i CHANGELOG.md -s'',
      Ask ''Changelog generated. Does it look good?'',
      Log (CHR ''\<newline>'' # ''Updating lockfile...''),
      Exec None ''pnpm install --prefer-offline'',
      Exec None ''git diff'',
      Log (CHR ''\<newline>'' # ''Committing changes...''),
      DryRun ''git add -A'',
      DryRun (''git commit -m '' @ [CHR 0x22] @ ''chore(release): release v2.0.0'' @ [CHR 0x22]),
      Log (CHR ''\<newline>'' # ''Pushing to github...''),
      DryRun ''git tag v2.0.0'',
      DryRun ''git push origin refs/tags/v2.0.0'',
      DryRun ''git push'',
      Log (CHR ''\<newline>'' # ''Publishing github release...''),
      Exec None ''git remote get-url origin'',
      Log (CHR ''\<newline>'' # ''Dry run - skipping github release...''),
      Log (CHR ''\<newline>'' # ''Building all packages...''),
      Exec None ''pnpm build'',
      Log (CHR ''\<newline>'' # ''Publishing packages...''),
      Log ''Publishing react...'',
      Exec (Some ''../packages/react'') ''pnpm publish --access publish --dry-run --no-git-checks'',
      Log ''Successfully published react@2.0.0'',
      Log ''Publishing vue...'',
      Exec (Some ''../packages/vue'') ''pnpm publish --access publish --dry-run --no-git-checks'',
      Log ''Successfully published vue@2.0.0'',
      Log (CHR ''\<newline>'' # ''Dry run finished - run git diff to see package changes.''),
      Log []]"
      using p2 t tr by (simp add: dry_run_events_def package_dir_def)
  qed
qed

section \<open>The validation errors\<close>

text \<open>
  C4, as amended. When the target version is no valid semantic version, \<^verbatim>\<open>main\<close> throws
  the error \<^verbatim>\<open>Invalid target version: v\<close>; the process ends with status 1, and up to then
  no manifest was written and no command was executed but the git queries of the two
  checks. When the changelog has no section for the version, \<^verbatim>\<open>publishGitHubRelease\<close>
  throws after the query of the remote, before a release is opened or created.
\<close>

theorem validation_errors:
  "(load env = Inr (cur, ps) \<and> checks env (start env) = (Inr True, s1) \<and>
    resolve_version env cur s1 = (Inr tv, s2) \<and> \<not> semver_valid env tv \<longrightarrow>
      status (release env) = 1 \<and>
      final (release env) = add_events s2 [LogThrown (Error (''Invalid target version: '' @ tv))] \<and>
      manifests s2 = manifests0 env \<and> list_all harmless (trace s2)) \<and>
   (changelog_notes env v = Inr None \<longrightarrow>
      (\<exists>e. publishGitHubRelease env v s =
             (Inl e, add_events s [Exec None ''git remote get-url origin''])))"
proof (intro conjI impI)
  assume h: "load env = Inr (cur, ps) \<and> checks env (start env) = (Inr True, s1) \<and>
    resolve_version env cur s1 = (Inr tv, s2) \<and> \<not> semver_valid env tv"
  then have l: "load env = Inr (cur, ps)" and c: "checks env (start env) = (Inr True, s1)"
    and r: "resolve_version env cur s1 = (Inr tv, s2)" and inv: "\<not> semver_valid env tv"
    by blast+
  from frameD [OF frame_checks c]
  have f1: "manifests s1 = manifests0 env" "\<not> versionUpdated s1" by (simp_all add: start_def)
  from frameD [OF frame_resolve_version r] f1
  have f2: "manifests s2 = manifests0 env" "\<not> versionUpdated s2" by simp_all
  from emitsD [OF emits_checks c] have t1: "list_all harmless (trace s1)"
    by (auto simp: start_def)
  from emitsD [OF emits_resolve_version r] t1 have t2: "list_all harmless (trace s2)" by auto
  have m: "main_release env cur ps (start env) =
             (Inl (Error (''Invalid target version: '' @ tv)), s2)"
    using c r inv by (simp add: main_release_def bnd_apply validate_and_confirm_def throw_apply)
  have e: "on_error env cur ps (Error (''Invalid target version: '' @ tv)) s2 =
             (Inr (), add_events s2 [LogThrown (Error (''Invalid target version: '' @ tv))])"
    using f2 by (simp add: on_error_def bnd_apply emit_add)
  show "status (release env) = 1" using l m by (simp add: release_def)
  show "final (release env) = add_events s2 [LogThrown (Error (''Invalid target version: '' @ tv))]"
    using l m e by (simp add: release_def)
  show "manifests s2 = manifests0 env" by (rule f2)
  show "list_all harmless (trace s2)" by (rule t2)
next
  assume "changelog_notes env v = Inr None"
  then show "\<exists>e. publishGitHubRelease env v s =
             (Inl e, add_events s [Exec None ''git remote get-url origin''])"
    by (rule publishGitHubRelease_no_section)
qed

theorem validation_errors_witness:
  "status (release invalid_version_env) = 1 \<and>
   trace (final (release invalid_version_env)) =
     demo_checks @ [LogThrown (Error ''Invalid target version: not-a-version'')] \<and>
   manifests (final (release invalid_version_env)) = manifests0 invalid_version_env \<and>
   (\<exists>e. publishGitHubRelease no_section_env ''2.0.0'' (start no_section_env) =
          (Inl e, add_events (start no_section_env) [Exec None ''git remote get-url origin'']))"
proof -
  let ?env = invalid_version_env
  let ?cur = "Some (JStr ''1.9.0'')"
  let ?ps = "[''react'', ''vue'']"
  let ?s1 = "snd (checks ?env (start ?env))"
  have h1: "load ?env = Inr (?cur, ?ps)" by code_simp
  have "fst (checks ?env (start ?env)) = Inr True" by code_simp
  then have c: "checks ?env (start ?env) = (Inr True, ?s1)" by (rule pair_of_fst)
  have t: "trace ?s1 = demo_checks" by code_simp
  have r: "resolve_version ?env ?cur ?s1 = (Inr ''not-a-version'', ?s1)"
    by (simp add: resolve_version_def ret_apply invalid_version_env_def release_demo_def)
  have v: "\<not> semver_valid ?env ''not-a-version''"
    by (simp add: invalid_version_env_def release_demo_def)
  have n: "changelog_notes no_section_env ''2.0.0'' = Inr None"
    by (simp add: no_section_env_def)
  from validation_errors [of ?env ?cur ?ps ?s1 "''not-a-version''" ?s1] h1 c r v
  have a: "status (release ?env) = 1 \<and>
      final (release ?env) = add_events ?s1 [LogThrown (Error (''Invalid target version: '' @ ''not-a-version''))] \<and>
      manifests ?s1 = manifests0 ?env"
    by blast
  from validation_errors [of no_section_env _ _ _ _ _ "''2.0.0''" "start no_section_env"] n
  have b: "\<exists>e. publishGitHubRelease no_section_env ''2.0.0'' (start no_section_env) =
          (Inl e, add_events (start no_section_env) [Exec None ''git remote get-url origin''])"
    by blast
  show ?thesis using a b t by simp
qed

text \<open>
  C4 as stated fails for the changelog. The script looks for the section only in
  \<^verbatim>\<open>publishGitHubRelease\<close>, and it does not check what it finds: the error is the one of
  destructuring \<^verbatim>\<open>null\<close>. By then the manifests are rewritten and the commit, the tag and
  the branch are pushed.
\<close>

theorem validation_errors_counterexample:
  "status (release no_section_env) = 1 \<and>
   trace (final (release no_section_env)) =
     demo_checks @
     [Ask ''Releasing v2.0.0. Confirm?'',
      Log (CHR ''\<newline>'' # ''Updating packages versions...''),
      WriteManifest Root (Some (JStr ''2.0.0'')),
      WriteManifest (Pkg ''react'') (Some (JStr ''2.0.0'')),
      WriteManifest (Pkg ''vue'') (Some (JStr ''2.0.0'')),
      Log (CHR ''\<newline>'' # ''Generating changelog...''),
      Exec None ''conventional-changelog -p angular -i CHANGELOG.md -s'',
      Ask ''Changelog generated. Does it look good?'',
      Log (CHR ''\<newline>'' # ''Updating lockfile...''),
      Exec None ''pnpm install --prefer-offline'',
      Exec None ''git diff'',
      Log (CHR ''\<newline>'' # ''Committing changes...''),
      Exec None ''git add -A'',
      Exec None (''git commit -m '' @ [CHR 0x22] @ ''chore(release): release v2.0.0'' @ [CHR 0x22]),
      Log (CHR ''\<newline>'' # ''Pushing to github...''),
      Exec None ''git tag v2.0.0'',
      Exec None ''git push origin refs/tags/v2.0.0'',
      Exec None ''git push'',
      Log (CHR ''\<newline>'' # ''Publishing github release...''),
      Exec None ''git remote get-url origin'',
      WriteManifest Root (Some (JStr ''1.9.0'')),
      WriteManifest (Pkg ''react'') (Some (JStr ''1.9.0'')),
      WriteManifest (Pkg ''vue'') (Some (JStr ''1.9.0'')),
      LogThrown (TypeError ''(intermediate value).exec(...) is not iterable'')]"
proof -
  let ?env = no_section_env
  let ?cur = "Some (JStr ''1.9.0'')"
  let ?ps = "[''react'', ''vue'']"
  let ?s1 = "snd (checks ?env (start ?env))"
  have h1: "load ?env = Inr (?cur, ?ps)" by code_simp
  have "fst (checks ?env (start ?env)) = Inr True" by code_simp
  then have c: "checks ?env (start ?env) = (Inr True, ?s1)" by (rule pair_of_fst)
  have t: "trace ?s1 = demo_checks" by code_simp
  have r: "resolve_version ?env ?cur ?s1 = (Inr ''2.0.0'', ?s1)"
    by (rule demo_resolve) (simp add: no_section_env_def release_demo_def)
  have g: "\<not> isl (fst (getRepoInfo ?env (start ?env)))" by code_simp
  have e: "exec ?env = demo_exec" by (simp add: no_section_env_def release_demo_def)
  have tr: "trim (projr (exec ?env None ''git diff'')) \<noteq> []"
    unfolding e by code_simp
  have v: "semver_valid ?env ''2.0.0''" and a: "ask_confirm ?env = Inr True"
    and w: "list_all (\<lambda>r. manifest_write_error ?env r = None) (Root # map Pkg ?ps)"
    and nd: "\<not> dry ?env" and ch: "ask_changelog ?env = Inr True"
    and cn: "changelog_notes ?env ''2.0.0'' = Inr None"
    by (simp_all add: no_section_env_def release_demo_def)
  have ok: "\<not> isl (exec ?env None cmd)" for cmd by (simp add: e demo_exec_ok)
  from main_release_reaches [OF h1 c r v a w] obtain s3 where
    m: "main_release ?env ?cur ?ps (start ?env) = after_version_update ?env ?ps ''2.0.0'' s3"
    and t3: "trace s3 = trace ?s1 @ [Ask (''Releasing v'' @ ''2.0.0'' @ ''. Confirm?''),
                                   Log (CHR ''\<newline>'' # ''Updating packages versions...'')] @
                       map (\<lambda>r. WriteManifest r (Some (JStr ''2.0.0''))) (Root # map Pkg ?ps)"
    and u: "versionUpdated s3" by blast
  note f = after_version_update_no_section [OF nd ok ch tr g cn, of ?ps s3]
  have h2: "main_release ?env ?cur ?ps (start ?env) = (Inl (not_iterable ''(intermediate value).exec(...)''), snd (after_version_update ?env ?ps ''2.0.0'' s3))"
    using m f by simp
  have h3: "versionUpdated (snd (after_version_update ?env ?ps ''2.0.0'' s3))" using u f by simp
  from release_rolls_back [OF h1 h2 h3] f t3 t show ?thesis
    by (simp add: not_iterable_def)
qed

end
